theory Spec2Isabelle
  imports Complex_Main "HOL-Library.Stream" "HOL-Library.Multiset"
begin

section \<open>Synthetic authentication logs: the generator of \<open>generate_synthetic_auth_logs.py\<close>\<close>

text \<open>
  The generator is a single-pass batch program driven by one \<open>random.Random\<close> object.
  Every function of the source that draws from it is embedded as a function that takes the
  generator state and returns either an error or its result together with the new state.
  Python floats are read as exact reals, except in \<open>weighted_choice\<close>, whose loop is kept
  polymorphic in the number type so that nothing proved about it depends on exact
  arithmetic.
\<close>

subsection \<open>Errors and the randomness source\<close>

datatype error = ValueError | IndexError | OverflowError

text \<open>
  The state of \<open>random.Random\<close> is a stream of raw draws. Each primitive consumes one
  draw and maps it onto its documented range, so every sequence of results the library
  can deliver is the image of some stream:
  \<^item> \<open>random()\<close> is \<open>k / 2^53\<close> for a \<open>k\<close> below \<open>2^53\<close>, a float in \<open>[0, 1)\<close>;
  \<^item> \<open>randint(a, b)\<close> is \<open>a + randbelow(b - a + 1)\<close> and raises \<open>ValueError\<close> on an
    empty range;
  \<^item> \<open>choice(seq)\<close> is \<open>seq[randbelow(len(seq))]\<close> and raises \<open>IndexError\<close> on an empty
    sequence;
  \<^item> \<open>shuffle(x)\<close> runs \<open>for i in reversed(range(1, len(x))): j = randbelow(i + 1);
    x[i], x[j] = x[j], x[i]\<close>.
\<close>

type_synonym rng = "nat stream"

definition rng_random :: "rng \<Rightarrow> real \<times> rng" where
  "rng_random s = (real (shd s mod 2 ^ 53) / 2 ^ 53, stl s)"

definition rng_randint :: "int \<Rightarrow> int \<Rightarrow> rng \<Rightarrow> error + (int \<times> rng)" where
  "rng_randint a b s =
     (if b < a then Inl ValueError
      else Inr (a + int (shd s mod nat (b - a + 1)), stl s))"

definition rng_choice :: "'a list \<Rightarrow> rng \<Rightarrow> error + ('a \<times> rng)" where
  "rng_choice seq s =
     (if seq = [] then Inl IndexError
      else Inr (seq ! (shd s mod length seq), stl s))"

fun shuffle_loop :: "nat \<Rightarrow> 'a list \<Rightarrow> rng \<Rightarrow> 'a list \<times> rng" where
  "shuffle_loop 0 x s = (x, s)"
| "shuffle_loop (Suc i) x s =
     (let j = shd s mod (Suc i + 1)
      in shuffle_loop i (x[Suc i := x ! j, j := x ! Suc i]) (stl s))"

definition rng_shuffle :: "'a list \<Rightarrow> rng \<Rightarrow> 'a list \<times> rng" where
  "rng_shuffle x s = shuffle_loop (length x - 1) x s"

text \<open>Sequencing of two drawing steps: the first error ends the run, as an exception does.\<close>

definition bnd ::
  "(rng \<Rightarrow> error + ('a \<times> rng)) \<Rightarrow> ('a \<Rightarrow> rng \<Rightarrow> error + ('b \<times> rng)) \<Rightarrow> rng \<Rightarrow> error + ('b \<times> rng)"
where
  "bnd m f s = (case m s of Inl e \<Rightarrow> Inl e | Inr (x, s') \<Rightarrow> f x s')"

definition ret :: "'a \<Rightarrow> rng \<Rightarrow> error + ('a \<times> rng)" where
  "ret x s = Inr (x, s)"

definition lift :: "error + 'a \<Rightarrow> rng \<Rightarrow> error + ('a \<times> rng)" where
  "lift r s = (case r of Inl e \<Rightarrow> Inl e | Inr x \<Rightarrow> Inr (x, s))"

definition draw_random :: "rng \<Rightarrow> error + (real \<times> rng)" where
  "draw_random s = Inr (rng_random s)"

text \<open>
  A \<open>for\<close> loop whose body yields one value per iteration: the values are collected in
  iteration order, and an error in the body ends the loop.
\<close>

fun for_loop :: "'i list \<Rightarrow> ('i \<Rightarrow> rng \<Rightarrow> error + ('a \<times> rng)) \<Rightarrow> rng \<Rightarrow> error + ('a list \<times> rng)" where
  "for_loop [] body rng = Inr ([], rng)"
| "for_loop (i # rest) body rng =
     (case body i rng of
        Inl e \<Rightarrow> Inl e
      | Inr (x, rng1) \<Rightarrow>
          (case for_loop rest body rng1 of
             Inl e \<Rightarrow> Inl e
           | Inr (xs, rng2) \<Rightarrow> Inr (x # xs, rng2)))"

subsection \<open>\<open>weighted_choice\<close>\<close>

text \<open>
  \<^verbatim>\<open>
  def weighted_choice(rng, items):
      total = sum(w for _, w in items)
      r = rng.random() * total
      upto = 0.0
      for item, weight in items:
          upto += weight
          if upto >= r:
              return item
      return items[-1][0]
  \<close>
  \<open>weighted_choice_loop\<close> is the \<open>for\<close> loop (\<open>None\<close> when it runs to its end),
  \<open>weighted_choice_at\<close> is the loop followed by the final \<open>return items[-1][0]\<close>, which
  raises \<open>IndexError\<close> on an empty list. Both are polymorphic in the type of the weights:
  only \<open>+\<close>, \<open>0\<close> and \<open>\<le>\<close> of that type are used, with no law assumed of them.
\<close>

fun weighted_choice_loop :: "'w::{plus,ord} \<Rightarrow> 'w \<Rightarrow> (string \<times> 'w) list \<Rightarrow> string option" where
  "weighted_choice_loop r up_to [] = None"
| "weighted_choice_loop r up_to ((item, weight) # rest) =
     (if up_to + weight \<ge> r then Some item
      else weighted_choice_loop r (up_to + weight) rest)"

definition weighted_choice_at :: "'w::{plus,zero,ord} \<Rightarrow> (string \<times> 'w) list \<Rightarrow> error + string" where
  "weighted_choice_at r items =
     (case weighted_choice_loop r 0 items of
        Some item \<Rightarrow> Inr item
      | None \<Rightarrow> (if items = [] then Inl IndexError else Inr (fst (last items))))"

definition weighted_choice :: "rng \<Rightarrow> (string \<times> real) list \<Rightarrow> error + (string \<times> rng)" where
  "weighted_choice rng items =
     (let total = foldl (+) 0 (map snd items);
          (x, rng1) = rng_random rng;
          r = x * total
      in case weighted_choice_at r items of
           Inl e \<Rightarrow> Inl e
         | Inr item \<Rightarrow> Inr (item, rng1))"

text \<open>
  The specification's wording of the same choice: the cumulative weight of position \<open>k\<close>
  is the running sum after \<open>k + 1\<close> additions, the answer is the label of the first
  position whose cumulative weight is at least the draw, and the last label if there is none.
\<close>

definition cumulative_weight :: "(string \<times> 'w::{plus,zero}) list \<Rightarrow> nat \<Rightarrow> 'w" where
  "cumulative_weight items k = foldl (+) 0 (map snd (take (Suc k) items))"

definition spec_weighted_choice :: "'w::{plus,zero,ord} \<Rightarrow> (string \<times> 'w) list \<Rightarrow> string" where
  "spec_weighted_choice r items =
     (case find (\<lambda>k. cumulative_weight items k \<ge> r) [0..<length items] of
        Some k \<Rightarrow> fst (items ! k)
      | None \<Rightarrow> fst (last items))"

subsection \<open>Instants and durations\<close>

text \<open>
  A \<open>datetime\<close> of the run is timezone-aware and in UTC (\<open>datetime.now(timezone.utc)\<close>
  and values derived from it), so it is the number of microseconds since
  1970-01-01T00:00:00Z, and \<open>astimezone(timezone.utc)\<close> returns it unchanged. A
  \<open>timedelta\<close> is a number of microseconds. The library keeps instants between
  0001-01-01T00:00:00 and 9999-12-31T23:59:59.999999 and raises \<open>OverflowError\<close> when
  an addition leaves that range, or when \<open>timedelta(days=d)\<close> exceeds 999999999 days
  in magnitude.
\<close>

type_synonym datetime = int
type_synonym timedelta = int

definition DT_MIN :: datetime where
  "DT_MIN = - 62135596800000000"

definition DT_MAX :: datetime where
  "DT_MAX = 253402300799999999"

definition valid_datetime :: "datetime \<Rightarrow> bool" where
  "valid_datetime t \<longleftrightarrow> DT_MIN \<le> t \<and> t \<le> DT_MAX"

definition dt_add :: "datetime \<Rightarrow> timedelta \<Rightarrow> error + datetime" where
  "dt_add t d = (if DT_MIN \<le> t + d \<and> t + d \<le> DT_MAX then Inr (t + d) else Inl OverflowError)"

definition timedelta_days :: "int \<Rightarrow> error + timedelta" where
  "timedelta_days d =
     (if - 999999999 \<le> d \<and> d \<le> 999999999 then Inr (d * 86400000000) else Inl OverflowError)"

definition hours :: "int \<Rightarrow> timedelta" where
  "hours h = h * 3600000000"

definition minutes :: "int \<Rightarrow> timedelta" where
  "minutes m = m * 60000000"

definition seconds :: "int \<Rightarrow> timedelta" where
  "seconds s = s * 1000000"

text \<open>
  \<open>int(td.total_seconds())\<close>: the quotient by \<open>10^6\<close>, truncated towards zero. The
  library computes the quotient as a float; it is exact to the second when \<open>td\<close> is a
  whole number of seconds (as the window of \<open>main\<close> is, a whole number of days) or is
  shorter than \<open>2^34\<close> seconds, and this definition is the exact value.
\<close>

definition total_seconds_int :: "timedelta \<Rightarrow> int" where
  "total_seconds_int td = (if 0 \<le> td then td div 1000000 else - ((- td) div 1000000))"

text \<open>
  \<open>t.replace(hour=h, minute=m, second=s)\<close> keeps the date and the microsecond of \<open>t\<close>
  and raises \<open>ValueError\<close> for a field out of range.
\<close>

definition dt_replace :: "datetime \<Rightarrow> int \<Rightarrow> int \<Rightarrow> int \<Rightarrow> error + datetime" where
  "dt_replace t h m s =
     (if 0 \<le> h \<and> h \<le> 23 \<and> 0 \<le> m \<and> m \<le> 59 \<and> 0 \<le> s \<and> s \<le> 59
      then Inr (t div 86400000000 * 86400000000 + (h * 3600 + m * 60 + s) * 1000000 + t mod 1000000)
      else Inl ValueError)"

text \<open>
  \<open>t.isoformat(timespec="seconds")\<close> prints date, time of day to the second and the
  offset \<open>+00:00\<close>, dropping the microseconds. The record field \<open>timestamp_utc\<close> holds
  the instant this text denotes: the whole seconds since the epoch.
\<close>

definition isoformat_seconds :: "datetime \<Rightarrow> int" where
  "isoformat_seconds t = t div 1000000"

subsection \<open>Networks and addresses\<close>

text \<open>
  A well-formed CIDR string is given by its parsed parts: four decimal octets and a prefix
  length for IPv4 (\<open>CidrV4 10 10 10 0 24\<close> is \<open>"10.10.10.0/24"\<close>), the 128-bit address
  value and a prefix length for IPv6. \<open>ipaddress.ip_network(cidr, strict=False)\<close>
  rejects an octet above 255 or a prefix longer than the address with \<open>ValueError\<close> and
  clears the host bits of the address. \<open>ipaddress.ip_address(n)\<close> of an integer is an
  \<open>IPv4Address\<close> when \<open>n < 2^32\<close>, an \<open>IPv6Address\<close> when \<open>n < 2^128\<close>, and a
  \<open>ValueError\<close> otherwise. An address value stands for its canonical text
  (\<open>str(...)\<close>), which is different for addresses of different versions.
\<close>

datatype cidr = CidrV4 nat nat nat nat nat | CidrV6 nat nat

datatype ip_net = IPv4Network nat nat | IPv6Network nat nat

datatype ip_addr = IPv4Address nat | IPv6Address nat

definition ip_network :: "cidr \<Rightarrow> error + ip_net" where
  "ip_network c =
     (case c of
        CidrV4 o1 o2 o3 o4 p \<Rightarrow>
          (if o1 \<le> 255 \<and> o2 \<le> 255 \<and> o3 \<le> 255 \<and> o4 \<le> 255 \<and> p \<le> 32
           then Inr (IPv4Network
                  ((o1 * 2 ^ 24 + o2 * 2 ^ 16 + o3 * 2 ^ 8 + o4) div 2 ^ (32 - p) * 2 ^ (32 - p)) p)
           else Inl ValueError)
      | CidrV6 a p \<Rightarrow>
          (if a < 2 ^ 128 \<and> p \<le> 128
           then Inr (IPv6Network (a div 2 ^ (128 - p) * 2 ^ (128 - p)) p)
           else Inl ValueError))"

fun is_IPv4Network :: "ip_net \<Rightarrow> bool" where
  "is_IPv4Network (IPv4Network a p) = True"
| "is_IPv4Network (IPv6Network a p) = False"

fun network_address :: "ip_net \<Rightarrow> nat" where
  "network_address (IPv4Network a p) = a"
| "network_address (IPv6Network a p) = a"

fun num_addresses :: "ip_net \<Rightarrow> nat" where
  "num_addresses (IPv4Network a p) = 2 ^ (32 - p)"
| "num_addresses (IPv6Network a p) = 2 ^ (128 - p)"

definition broadcast_address :: "ip_net \<Rightarrow> nat" where
  "broadcast_address net = network_address net + num_addresses net - 1"

definition ip_address :: "int \<Rightarrow> error + ip_addr" where
  "ip_address n =
     (if 0 \<le> n \<and> n < 2 ^ 32 then Inr (IPv4Address (nat n))
      else if 0 \<le> n \<and> n < 2 ^ 128 then Inr (IPv6Address (nat n))
      else Inl ValueError)"

text \<open>Membership of an address in a network: same version, value within the block.\<close>

fun in_network :: "ip_addr \<Rightarrow> ip_net \<Rightarrow> bool" where
  "in_network (IPv4Address n) (IPv4Network a p) \<longleftrightarrow> a \<le> n \<and> n \<le> a + 2 ^ (32 - p) - 1"
| "in_network (IPv6Address n) (IPv6Network a p) \<longleftrightarrow> a \<le> n \<and> n \<le> a + 2 ^ (128 - p) - 1"
| "in_network (IPv4Address n) (IPv6Network a p) \<longleftrightarrow> False"
| "in_network (IPv6Address n) (IPv4Network a p) \<longleftrightarrow> False"

fun addr_value :: "ip_addr \<Rightarrow> nat" where
  "addr_value (IPv4Address n) = n"
| "addr_value (IPv6Address n) = n"

text \<open>
  \<^verbatim>\<open>
  def random_ip_from_cidr(rng, cidr):
      net = ipaddress.ip_network(cidr, strict=False)
      # avoid network/broadcast for IPv4 where applicable
      if isinstance(net, ipaddress.IPv4Network) and net.num_addresses > 2:
          first = int(net.network_address) + 1
          last = int(net.broadcast_address) - 1
      else:
          first = int(net.network_address)
          last = int(net.network_address) + net.num_addresses - 1
      return str(ipaddress.ip_address(rng.randint(first, last)))
  \<close>
\<close>

definition random_ip_from_cidr :: "rng \<Rightarrow> cidr \<Rightarrow> error + (ip_addr \<times> rng)" where
  "random_ip_from_cidr rng c =
     (case ip_network c of
        Inl e \<Rightarrow> Inl e
      | Inr net \<Rightarrow>
          (let (first_a, last_a) =
                 (if is_IPv4Network net \<and> num_addresses net > 2
                  then (int (network_address net) + 1, int (broadcast_address net) - 1)
                  else (int (network_address net),
                        int (network_address net) + int (num_addresses net) - 1))
           in case rng_randint first_a last_a rng of
                Inl e \<Rightarrow> Inl e
              | Inr (n, rng1) \<Rightarrow>
                  (case ip_address n of
                     Inl e \<Rightarrow> Inl e
                   | Inr a \<Rightarrow> Inr (a, rng1))))"

subsection \<open>Timestamp sampling\<close>

text \<open>
  \<^verbatim>\<open>
  def random_timestamp(rng, start, end, prefer_hours):
      total_seconds = int((end - start).total_seconds())
      base = start + timedelta(seconds=rng.randint(0, total_seconds))
      if prefer_hours is None:
          return base
      h_start, h_end = prefer_hours
      # 80% of the time, force hour into the preferred window
      if rng.random() < 0.8:
          hour = rng.randint(h_start, h_end)
          minute = rng.randint(0, 59)
          second = rng.randint(0, 59)
          return base.replace(hour=hour, minute=minute, second=second)
      return base
  \<close>
\<close>

definition random_timestamp ::
  "rng \<Rightarrow> datetime \<Rightarrow> datetime \<Rightarrow> (int \<times> int) option \<Rightarrow> error + (datetime \<times> rng)"
where
  "random_timestamp rng start end' prefer_hours =
     (let total_seconds = total_seconds_int (end' - start)
      in bnd (rng_randint 0 total_seconds) (\<lambda>k.
         bnd (lift (dt_add start (seconds k))) (\<lambda>base.
           case prefer_hours of
             None \<Rightarrow> ret base
           | Some (h_start, h_end) \<Rightarrow>
               bnd draw_random (\<lambda>x.
                 if x < 0.8 then
                   bnd (rng_randint h_start h_end) (\<lambda>hour.
                   bnd (rng_randint 0 59) (\<lambda>minute.
                   bnd (rng_randint 0 59) (\<lambda>second.
                     lift (dt_replace base hour minute second))))
                 else ret base))) rng)"

subsection \<open>User profiles\<close>

record UserProfile =
  username :: string
  home_country :: string
  usual_hours :: "int \<times> int"
  success_rate :: real
  known_ip_blocks :: "cidr list"

definition build_user_profiles :: "UserProfile list" where
  "build_user_profiles =
     [\<lparr>username = ''alice'', home_country = ''US'', usual_hours = (8, 17), success_rate = 0.97,
        known_ip_blocks = [CidrV4 10 10 10 0 24, CidrV4 192 168 10 0 24]\<rparr>,
      \<lparr>username = ''bob'', home_country = ''US'', usual_hours = (7, 16), success_rate = 0.96,
        known_ip_blocks = [CidrV4 10 10 20 0 24, CidrV4 192 168 20 0 24]\<rparr>,
      \<lparr>username = ''carol'', home_country = ''CA'', usual_hours = (9, 18), success_rate = 0.98,
        known_ip_blocks = [CidrV4 10 10 30 0 24, CidrV4 192 168 30 0 24]\<rparr>,
      \<lparr>username = ''dave'', home_country = ''GB'', usual_hours = (6, 15), success_rate = 0.95,
        known_ip_blocks = [CidrV4 10 10 40 0 24, CidrV4 192 168 40 0 24]\<rparr>,
      \<lparr>username = ''svc_backup'', home_country = ''US'', usual_hours = (0, 23), success_rate = 0.995,
        known_ip_blocks = [CidrV4 10 99 0 0 24]\<rparr>]"

text \<open>
  The last argument of the call of \<open>random_timestamp\<close> in \<open>generate_normal_events\<close>:
  \<^verbatim>\<open>u.usual_hours if u.username != "svc_backup" else None\<close>
\<close>

definition profile_hours :: "UserProfile \<Rightarrow> (int \<times> int) option" where
  "profile_hours u =
     (if UserProfile.username u \<noteq> ''svc_backup'' then Some (usual_hours u) else None)"

subsection \<open>Events\<close>

text \<open>
  An event is the dictionary of the source with its eight keys; the tagging pass of
  \<open>inject_anomalies\<close> adds the ninth key \<open>is_injected_anomaly\<close>.
\<close>

record AuthEvent =
  timestamp_utc :: int
  username :: string
  event_source :: string
  auth_type :: string
  source_ip :: ip_addr
  country :: string
  result :: string
  failure_reason :: string

record TaggedEvent = AuthEvent +
  is_injected_anomaly :: string

definition tag :: "string \<Rightarrow> AuthEvent \<Rightarrow> TaggedEvent" where
  "tag v e =
     \<lparr>timestamp_utc = timestamp_utc e, username = username e, event_source = event_source e,
      auth_type = auth_type e, source_ip = source_ip e, country = country e,
      result = result e, failure_reason = failure_reason e, is_injected_anomaly = v\<rparr>"

subsection \<open>Normal events\<close>

definition auth_types :: "(string \<times> real) list" where
  "auth_types = [(''password'', 0.75), (''ssh_key'', 0.18), (''mfa_push'', 0.07)]"

definition event_sources :: "(string \<times> real) list" where
  "event_sources = [(''linux-sshd'', 0.45), (''windows-ad'', 0.35), (''vpn-gateway'', 0.20)]"

definition user_agents :: "(string \<times> real) list" where
  "user_agents =
     [(''OpenSSH_8.9'', 0.35), (''Windows10'', 0.30), (''macOS'', 0.15), (''curl/7.81'', 0.05),
      (''unknown'', 0.15)]"

definition alternate_countries :: "string list" where
  "alternate_countries = [''US'', ''CA'', ''GB'', ''DE'', ''FR'', ''AU'', ''JP'']"

definition failure_reasons :: "string list" where
  "failure_reasons = [''bad_password'', ''mfa_denied'', ''user_not_found'', ''expired_password'']"

text \<open>
  Line 113 of the source:
  \<^verbatim>\<open>country = u.home_country if rng.random() < 0.92 else rng.choice(["US", ..., "JP"])\<close>
\<close>

definition sample_country :: "UserProfile \<Rightarrow> rng \<Rightarrow> error + (string \<times> rng)" where
  "sample_country u =
     bnd draw_random (\<lambda>x.
       if x < 0.92 then ret (home_country u) else rng_choice alternate_countries)"

text \<open>
  One iteration of the loop of \<open>generate_normal_events\<close>; the draws are made in the order
  of the source: user, timestamp, event source, authentication type, user agent (drawn
  and dropped), address block, address, country, success, failure reason.
\<close>

definition normal_event ::
  "UserProfile list \<Rightarrow> datetime \<Rightarrow> datetime \<Rightarrow> rng \<Rightarrow> error + (AuthEvent \<times> rng)"
where
  "normal_event users start end' =
     bnd (rng_choice users) (\<lambda>u.
     bnd (\<lambda>rng. random_timestamp rng start end' (profile_hours u)) (\<lambda>ts.
     bnd (\<lambda>rng. weighted_choice rng event_sources) (\<lambda>src.
     bnd (\<lambda>rng. weighted_choice rng auth_types) (\<lambda>auth.
     bnd (\<lambda>rng. weighted_choice rng user_agents) (\<lambda>ua.
     bnd (rng_choice (known_ip_blocks u)) (\<lambda>block.
     bnd (\<lambda>rng. random_ip_from_cidr rng block) (\<lambda>ip.
     bnd (sample_country u) (\<lambda>ctry.
     bnd draw_random (\<lambda>x.
       let success = (x < success_rate u)
       in bnd (if success then ret '''' else rng_choice failure_reasons) (\<lambda>reason.
          ret \<lparr>timestamp_utc = isoformat_seconds ts,
               username = UserProfile.username u,
               event_source = src,
               auth_type = auth,
               source_ip = ip,
               country = ctry,
               result = (if success then ''SUCCESS'' else ''FAILURE''),
               failure_reason = reason\<rparr>))))))))))"

definition generate_normal_events ::
  "rng \<Rightarrow> UserProfile list \<Rightarrow> datetime \<Rightarrow> datetime \<Rightarrow> int \<Rightarrow> error + (AuthEvent list \<times> rng)"
where
  "generate_normal_events rng users start end' n =
     for_loop [0..<nat n] (\<lambda>_. normal_event users start end') rng"

subsection \<open>Anomaly injection\<close>

text \<open>
  \<open>inject_anomalies\<close> appends the records of four scenarios to the list \<open>anomalies\<close>,
  tags them, tags the normal events, and shuffles the concatenation. Each scenario is a
  function that returns the records it appends, in the order of the appends.

  Impossible travel, the body of \<open>for user in ["alice", "bob"]\<close>:
  \<^verbatim>\<open>
  t1 = start + timedelta(hours=rng.randint(10, 40))
  t2 = t1 + timedelta(minutes=rng.randint(5, 35))
  anomalies.append({..., "source_ip": random_ip_from_cidr(rng, "203.0.113.0/24"), ...})
  anomalies.append({..., "source_ip": random_ip_from_cidr(rng, "198.51.100.0/24"), ...})
  \<close>
\<close>

definition impossible_travel :: "datetime \<Rightarrow> string \<Rightarrow> rng \<Rightarrow> error + (AuthEvent list \<times> rng)" where
  "impossible_travel start user =
     bnd (rng_randint 10 40) (\<lambda>h.
     bnd (lift (dt_add start (hours h))) (\<lambda>t1.
     bnd (rng_randint 5 35) (\<lambda>m.
     bnd (lift (dt_add t1 (minutes m))) (\<lambda>t2.
     bnd (\<lambda>rng. random_ip_from_cidr rng (CidrV4 203 0 113 0 24)) (\<lambda>ip1.
     bnd (\<lambda>rng. random_ip_from_cidr rng (CidrV4 198 51 100 0 24)) (\<lambda>ip2.
       ret [\<lparr>timestamp_utc = isoformat_seconds t1,
             username = user,
             event_source = ''vpn-gateway'',
             auth_type = ''password'',
             source_ip = ip1,
             country = ''US'',
             result = ''SUCCESS'',
             failure_reason = ''''\<rparr>,
            \<lparr>timestamp_utc = isoformat_seconds t2,
             username = user,
             event_source = ''vpn-gateway'',
             auth_type = ''password'',
             source_ip = ip2,
             country = ''JP'',
             result = ''SUCCESS'',
             failure_reason = ''''\<rparr>]))))))"

text \<open>
  Brute force then success. \<open>brute_failure\<close> is the body of \<open>for i in range(12)\<close>; in
  the dictionary display the username is drawn before the country.
\<close>

definition victim :: string where
  "victim = ''carol''"

definition brute_usernames :: "string list" where
  "brute_usernames = [''alice'', ''bob'', ''dave'', ''unknown_user'']"

definition brute_countries :: "string list" where
  "brute_countries = [''DE'', ''FR'', ''RU'', ''CN'']"

definition brute_failure :: "datetime \<Rightarrow> ip_addr \<Rightarrow> nat \<Rightarrow> rng \<Rightarrow> error + (AuthEvent \<times> rng)" where
  "brute_failure base brute_ip i =
     bnd (lift (dt_add base (minutes (int i)))) (\<lambda>t.
     bnd draw_random (\<lambda>x.
     bnd (if x < 0.7 then ret victim else rng_choice brute_usernames) (\<lambda>user.
     bnd (rng_choice brute_countries) (\<lambda>ctry.
       ret \<lparr>timestamp_utc = isoformat_seconds t,
            username = user,
            event_source = ''linux-sshd'',
            auth_type = ''password'',
            source_ip = brute_ip,
            country = ctry,
            result = ''FAILURE'',
            failure_reason = ''bad_password''\<rparr>))))"

definition brute_success :: "datetime \<Rightarrow> ip_addr \<Rightarrow> rng \<Rightarrow> error + (AuthEvent \<times> rng)" where
  "brute_success base brute_ip =
     bnd (lift (dt_add base (minutes 13))) (\<lambda>t.
     bnd (rng_choice brute_countries) (\<lambda>ctry.
       ret \<lparr>timestamp_utc = isoformat_seconds t,
            username = victim,
            event_source = ''linux-sshd'',
            auth_type = ''password'',
            source_ip = brute_ip,
            country = ctry,
            result = ''SUCCESS'',
            failure_reason = ''''\<rparr>))"

definition brute_force :: "datetime \<Rightarrow> rng \<Rightarrow> error + (AuthEvent list \<times> rng)" where
  "brute_force start =
     bnd (rng_randint 60 90) (\<lambda>h.
     bnd (lift (dt_add start (hours h))) (\<lambda>base.
     bnd (\<lambda>rng. random_ip_from_cidr rng (CidrV4 45 33 0 0 16)) (\<lambda>brute_ip.
     bnd (for_loop [0..<12] (brute_failure base brute_ip)) (\<lambda>failures.
     bnd (brute_success base brute_ip) (\<lambda>success.
       ret (failures @ [success]))))))"

text \<open>Off-hours access and the service account from a new block.\<close>

definition off_hours :: "datetime \<Rightarrow> rng \<Rightarrow> error + (AuthEvent \<times> rng)" where
  "off_hours start =
     bnd (rng_randint 0 59) (\<lambda>m.
     bnd (lift (dt_add start (2 * 86400000000 + hours 3 + minutes m))) (\<lambda>t.
     bnd (\<lambda>rng. random_ip_from_cidr rng (CidrV4 198 18 0 0 15)) (\<lambda>ip.
       ret \<lparr>timestamp_utc = isoformat_seconds t,
            username = ''dave'',
            event_source = ''windows-ad'',
            auth_type = ''mfa_push'',
            source_ip = ip,
            country = ''AU'',
            result = ''SUCCESS'',
            failure_reason = ''''\<rparr>)))"

definition service_account :: "datetime \<Rightarrow> rng \<Rightarrow> error + (AuthEvent \<times> rng)" where
  "service_account start =
     bnd (rng_randint 0 59) (\<lambda>m.
     bnd (lift (dt_add start (1 * 86400000000 + hours 12 + minutes m))) (\<lambda>t.
     bnd (\<lambda>rng. random_ip_from_cidr rng (CidrV4 172 31 0 0 16)) (\<lambda>ip.
       ret \<lparr>timestamp_utc = isoformat_seconds t,
            username = ''svc_backup'',
            event_source = ''linux-sshd'',
            auth_type = ''ssh_key'',
            source_ip = ip,
            country = ''US'',
            result = ''SUCCESS'',
            failure_reason = ''''\<rparr>)))"

text \<open>
  The list \<open>anomalies\<close> as it stands before the tagging pass, and the whole function:
  \<^verbatim>\<open>
  for a in anomalies: a["is_injected_anomaly"] = "true"
  for e in events:    e["is_injected_anomaly"] = "false"
  combined = events + anomalies
  rng.shuffle(combined)
  return combined
  \<close>
  The parameter \<open>end\<close> of the source is not used by its body.
\<close>

definition build_anomalies :: "datetime \<Rightarrow> rng \<Rightarrow> error + (AuthEvent list \<times> rng)" where
  "build_anomalies start =
     bnd (for_loop [''alice'', ''bob''] (impossible_travel start)) (\<lambda>travel.
     bnd (brute_force start) (\<lambda>brute.
     bnd (off_hours start) (\<lambda>off.
     bnd (service_account start) (\<lambda>svc.
       ret (concat travel @ brute @ [off] @ [svc])))))"

definition inject_anomalies ::
  "rng \<Rightarrow> AuthEvent list \<Rightarrow> datetime \<Rightarrow> datetime \<Rightarrow> error + (TaggedEvent list \<times> rng)"
where
  "inject_anomalies rng events start end' =
     (case build_anomalies start rng of
        Inl e \<Rightarrow> Inl e
      | Inr (anomalies, rng1) \<Rightarrow>
          (let combined = map (tag ''false'') events @ map (tag ''true'') anomalies
           in Inr (rng_shuffle combined rng1)))"

subsection \<open>The run\<close>

text \<open>
  \<^verbatim>\<open>
  def main():
      args = parse_args()
      rng = random.Random(args.seed)
      end = datetime.now(timezone.utc)
      start = end - timedelta(days=args.days)
      users = build_user_profiles()
      normal = generate_normal_events(rng, users, start, end, args.rows)
      combined = inject_anomalies(rng, normal, start, end)
      write_csv(out_path, combined)
  \<close>
  The parsed arguments, the reading of the clock and the seeding function of the library
  (\<open>random.Random\<close>, from a seed to a generator state) are the inputs of the run; its
  value is the list \<open>combined\<close> that is handed to \<open>write_csv\<close>.
\<close>

record Args =
  rows :: int
  days :: int
  seed :: int
  out :: string

definition main :: "(int \<Rightarrow> rng) \<Rightarrow> datetime \<Rightarrow> Args \<Rightarrow> error + TaggedEvent list" where
  "main seeding now args =
     (let rng = seeding (seed args);
          end' = now
      in case timedelta_days (days args) of
           Inl e \<Rightarrow> Inl e
         | Inr td \<Rightarrow>
             (case dt_add end' (- td) of
                Inl e \<Rightarrow> Inl e
              | Inr start \<Rightarrow>
                  (let users = build_user_profiles
                   in case generate_normal_events rng users start end' (rows args) of
                        Inl e \<Rightarrow> Inl e
                      | Inr (normal, rng1) \<Rightarrow>
                          (case inject_anomalies rng1 normal start end' of
                             Inl e \<Rightarrow> Inl e
                           | Inr (combined, rng2) \<Rightarrow> Inr combined))))"

subsection \<open>Vocabulary of the properties\<close>




text \<open>
  A profile on which the loop body of \<open>generate_normal_events\<close> raises nothing: hours in
  range and ordered, at least one address block, every block well formed and IPv4.
\<close>

fun wf_block :: "cidr \<Rightarrow> bool" where
  "wf_block (CidrV4 o1 o2 o3 o4 p) \<longleftrightarrow> o1 \<le> 255 \<and> o2 \<le> 255 \<and> o3 \<le> 255 \<and> o4 \<le> 255 \<and> p \<le> 32"
| "wf_block (CidrV6 a p) \<longleftrightarrow> False"

definition wf_profile :: "UserProfile \<Rightarrow> bool" where
  "wf_profile u \<longleftrightarrow>
     0 \<le> fst (usual_hours u) \<and> fst (usual_hours u) \<le> snd (usual_hours u) \<and> snd (usual_hours u) \<le> 23
     \<and> known_ip_blocks u \<noteq> [] \<and> (\<forall>c\<in>set (known_ip_blocks u). wf_block c)"

text \<open>
  An address drawn from a block as the scenarios draw it: inside the network of the CIDR
  string, and neither its network address nor its broadcast address.
\<close>

definition host_of_block :: "ip_addr \<Rightarrow> cidr \<Rightarrow> bool" where
  "host_of_block ip c =
     (case ip_network c of
        Inl e \<Rightarrow> False
      | Inr net \<Rightarrow> in_network ip net \<and> addr_value ip \<noteq> network_address net
                   \<and> addr_value ip \<noteq> broadcast_address net)"

text \<open>The invariant of an event: a failure reason is present exactly on a failure.\<close>

definition reason_matches_result :: "'a AuthEvent_scheme \<Rightarrow> bool" where
  "reason_matches_result e \<longleftrightarrow>
     (failure_reason e \<noteq> '''' \<longleftrightarrow> result e = ''FAILURE'')
     \<and> (failure_reason e = '''' \<longleftrightarrow> result e = ''SUCCESS'')"

text \<open>
  A run used as an example: the window from 1970-01-01T12:00:00Z to 1970-01-08T12:00:00Z
  and a generator whose raw draws are all zero. \<open>example_normal\<close> is the normal event and
  \<open>example_anomalies\<close> the list of anomalies it produces.
\<close>

definition example_start :: datetime where
  "example_start = 43200000000"

definition example_end :: datetime where
  "example_end = 648000000000"

definition example_normal :: AuthEvent where
  "example_normal =
     \<lparr>timestamp_utc = 28800, username = ''alice'', event_source = ''linux-sshd'',
      auth_type = ''password'', source_ip = IPv4Address 168430081, country = ''US'',
      result = ''SUCCESS'', failure_reason = ''''\<rparr>"

definition example_travel :: "string \<Rightarrow> AuthEvent list" where
  "example_travel user =
     [\<lparr>timestamp_utc = 79200, username = user, event_source = ''vpn-gateway'',
       auth_type = ''password'', source_ip = IPv4Address 3405803777, country = ''US'',
       result = ''SUCCESS'', failure_reason = ''''\<rparr>,
      \<lparr>timestamp_utc = 79500, username = user, event_source = ''vpn-gateway'',
       auth_type = ''password'', source_ip = IPv4Address 3325256705, country = ''JP'',
       result = ''SUCCESS'', failure_reason = ''''\<rparr>]"

definition example_brute :: "AuthEvent list" where
  "example_brute =
     map (\<lambda>i. \<lparr>timestamp_utc = 259200 + 60 * int i, username = ''carol'',
                event_source = ''linux-sshd'', auth_type = ''password'',
                source_ip = IPv4Address 757137409, country = ''DE'',
                result = ''FAILURE'', failure_reason = ''bad_password''\<rparr>) [0..<12]
     @ [\<lparr>timestamp_utc = 259980, username = ''carol'', event_source = ''linux-sshd'',
         auth_type = ''password'', source_ip = IPv4Address 757137409, country = ''DE'',
         result = ''SUCCESS'', failure_reason = ''''\<rparr>]"

definition example_anomalies :: "AuthEvent list" where
  "example_anomalies =
     example_travel ''alice'' @ example_travel ''bob'' @ example_brute
     @ [\<lparr>timestamp_utc = 226800, username = ''dave'', event_source = ''windows-ad'',
         auth_type = ''mfa_push'', source_ip = IPv4Address 3323068417, country = ''AU'',
         result = ''SUCCESS'', failure_reason = ''''\<rparr>,
        \<lparr>timestamp_utc = 172800, username = ''svc_backup'', event_source = ''linux-sshd'',
         auth_type = ''ssh_key'', source_ip = IPv4Address 2887712769, country = ''US'',
         result = ''SUCCESS'', failure_reason = ''''\<rparr>]"

text \<open>
  A generator whose raw draws are all zero except the 27th, which is one. The brute-force
  scenario takes 26 draws up to its last failure (the hour offset, the address, and a
  username test and a country for each of the twelve failures), so the 27th draw is the
  country of its final success.
\<close>

definition example_draws :: rng where
  "example_draws =
     [0, 0, 0, 0, 0, 0, 0, 0, 0, 0, 0, 0, 0, 0, 0, 0, 0, 0, 0, 0, 0, 0, 0, 0, 0, 0]
       @- (1 ## sconst 0)"

section \<open>Properties\<close>

subsection \<open>Sequencing, loops and the primitives of the randomness source\<close>

lemma bnd_Inr_iff:
  "bnd m f s = Inr r \<longleftrightarrow> (\<exists>x s1. m s = Inr (x, s1) \<and> f x s1 = Inr r)"
  by (auto simp: bnd_def split: sum.splits)

lemma bnd_InrE:
  assumes "bnd m f s = Inr r"
  obtains x s1 where "m s = Inr (x, s1)" and "f x s1 = Inr r"
  using assms by (auto simp: bnd_Inr_iff)

lemma bnd_InrI: "m s = Inr (x, s1) \<Longrightarrow> f x s1 = r \<Longrightarrow> bnd m f s = r"
  by (simp add: bnd_def)

lemma ret_Inr_iff: "ret x s = Inr r \<longleftrightarrow> r = (x, s)"
  by (auto simp: ret_def)

lemma lift_Inr_iff: "lift v s = Inr r \<longleftrightarrow> (\<exists>x. v = Inr x \<and> r = (x, s))"
  by (auto simp: lift_def split: sum.splits)

lemma draw_random_Inr_iff: "draw_random s = Inr r \<longleftrightarrow> r = rng_random s"
  by (auto simp: draw_random_def)

lemma rng_randint_Inr_iff:
  "rng_randint a b s = Inr r \<longleftrightarrow> a \<le> b \<and> r = (a + int (shd s mod nat (b - a + 1)), stl s)"
  by (auto simp: rng_randint_def)

lemma rng_randint_range:
  assumes "rng_randint a b s = Inr (n, s1)"
  shows "a \<le> n \<and> n \<le> b \<and> s1 = stl s"
proof -
  from assms have ab: "a \<le> b" and n: "n = a + int (shd s mod nat (b - a + 1))" and s1: "s1 = stl s"
    by (auto simp: rng_randint_Inr_iff)
  have "shd s mod nat (b - a + 1) < nat (b - a + 1)"
    using ab by (intro mod_less_divisor) simp
  then have "int (shd s mod nat (b - a + 1)) < b - a + 1" using ab by linarith
  with n s1 show ?thesis by simp
qed

lemma rng_randint_total:
  assumes "a \<le> b"
  shows "\<exists>n. rng_randint a b s = Inr (n, stl s) \<and> a \<le> n \<and> n \<le> b"
proof -
  let ?n = "a + int (shd s mod nat (b - a + 1))"
  have r: "rng_randint a b s = Inr (?n, stl s)" using assms by (simp add: rng_randint_def)
  from rng_randint_range [OF r] r show ?thesis by blast
qed

lemma rng_choice_Inr_iff:
  "rng_choice xs s = Inr r \<longleftrightarrow> xs \<noteq> [] \<and> r = (xs ! (shd s mod length xs), stl s)"
  by (auto simp: rng_choice_def)

lemma rng_choice_mem:
  "rng_choice xs s = Inr (x, s1) \<Longrightarrow> x \<in> set xs \<and> s1 = stl s"
  by (auto simp: rng_choice_Inr_iff)

lemma rng_choice_total:
  "xs \<noteq> [] \<Longrightarrow> \<exists>x. rng_choice xs s = Inr (x, stl s) \<and> x \<in> set xs"
  by (simp add: rng_choice_def)

lemma for_loop_length:
  "for_loop idx body s = Inr (xs, s1) \<Longrightarrow> length xs = length idx"
  by (induction idx arbitrary: s xs) (auto split: sum.splits)

lemma for_loop_Cons_Inr:
  assumes "for_loop (i # rest) body s = Inr (ys, s2)"
  obtains x s1 xs where "body i s = Inr (x, s1)" and "for_loop rest body s1 = Inr (xs, s2)"
    and "ys = x # xs"
  using assms by (auto split: sum.splits)

lemma for_loop_all2:
  assumes "for_loop idx body s = Inr (xs, s1)"
    and "\<And>i t x t1. i \<in> set idx \<Longrightarrow> body i t = Inr (x, t1) \<Longrightarrow> P i x"
  shows "list_all2 P idx xs"
  using assms
proof (induction idx arbitrary: s xs)
  case Nil
  then show ?case by simp
next
  case (Cons i idx)
  from Cons.prems(1) obtain x t1 ys where b: "body i s = Inr (x, t1)"
    and r: "for_loop idx body t1 = Inr (ys, s1)" and xs: "xs = x # ys"
    by (rule for_loop_Cons_Inr)
  have "P i x" using Cons.prems(2) [of i s x t1] b by simp
  moreover have "list_all2 P idx ys"
    using Cons.IH [OF r] Cons.prems(2) by simp
  ultimately show ?case by (simp add: xs)
qed

lemma for_loop_set:
  assumes "for_loop idx body s = Inr (xs, s1)"
    and "\<And>i t x t1. i \<in> set idx \<Longrightarrow> body i t = Inr (x, t1) \<Longrightarrow> Q x"
  shows "\<forall>x\<in>set xs. Q x"
proof -
  have "list_all2 (\<lambda>i x. Q x) idx xs"
    using assms(1) by (rule for_loop_all2) (rule assms(2))
  then show ?thesis by (auto simp: list_all2_conv_all_nth in_set_conv_nth)
qed

lemma for_loop_total:
  assumes "\<And>i t. i \<in> set idx \<Longrightarrow> \<exists>x t1. body i t = Inr (x, t1)"
  shows "\<exists>xs s1. for_loop idx body s = Inr (xs, s1)"
  using assms
proof (induction idx arbitrary: s)
  case Nil
  then show ?case by simp
next
  case (Cons i idx)
  from Cons.prems [of i s] obtain x t1 where b: "body i s = Inr (x, t1)" by auto
  from Cons.IH [of t1] Cons.prems obtain xs s1 where "for_loop idx body t1 = Inr (xs, s1)"
    by auto
  with b show ?case by simp
qed

lemma shuffle_loop_mset:
  "i < length x \<Longrightarrow> mset (fst (shuffle_loop i x s)) = mset x"
proof (induction i arbitrary: x s)
  case 0
  then show ?case by simp
next
  case (Suc i)
  let ?j = "shd s mod (Suc i + 1)"
  have "?j < Suc (Suc i)" by simp
  then have j: "?j < length x" using Suc.prems by linarith
  have "mset (x[Suc i := x ! ?j, ?j := x ! Suc i]) = mset x"
    using Suc.prems j by (simp add: mset_swap)
  moreover have "i < length (x[Suc i := x ! ?j, ?j := x ! Suc i])" using Suc.prems by simp
  ultimately show ?case using Suc.IH [of "x[Suc i := x ! ?j, ?j := x ! Suc i]" "stl s"]
    by (simp add: Let_def)
qed

lemma rng_shuffle_mset: "mset (fst (rng_shuffle x s)) = mset x"
proof (cases x)
  case Nil
  then show ?thesis by (simp add: rng_shuffle_def)
next
  case (Cons a list)
  then show ?thesis by (simp add: rng_shuffle_def shuffle_loop_mset)
qed

subsection \<open>\<open>weighted_choice\<close> against its specification\<close>

lemma cumulative_weight_at_end:
  "cumulative_weight (pre @ (item, weight) # items) (length pre) = foldl (+) 0 (map snd pre) + weight"
  by (simp add: cumulative_weight_def)

lemma weighted_choice_loop_find:
  "weighted_choice_loop r (foldl (+) 0 (map snd pre)) items =
     map_option (\<lambda>k. fst ((pre @ items) ! k))
       (find (\<lambda>k. cumulative_weight (pre @ items) k \<ge> r) [length pre..<length pre + length items])"
proof (induction items arbitrary: pre)
  case Nil
  then show ?case by simp
next
  case (Cons a items)
  obtain item weight where a: "a = (item, weight)" by (cases a)
  let ?P = "\<lambda>k. cumulative_weight (pre @ a # items) k \<ge> r"
  have up: "[length pre..<length pre + length (a # items)]
              = length pre # [Suc (length pre)..<Suc (length pre) + length items]"
    by (simp add: upt_conv_Cons del: upt_Suc)
  have ih: "weighted_choice_loop r (foldl (+) 0 (map snd pre) + weight) items =
     map_option (\<lambda>k. fst ((pre @ a # items) ! k))
       (find ?P [Suc (length pre)..<Suc (length pre) + length items])"
    using Cons.IH [of "pre @ [a]"] by (simp add: a)
  have hd: "?P (length pre) \<longleftrightarrow> r \<le> foldl (+) 0 (map snd pre) + weight"
    by (simp only: a cumulative_weight_at_end)
  have nth: "fst ((pre @ a # items) ! length pre) = item"
    by (simp add: a)
  show ?case
  proof (cases "r \<le> foldl (+) 0 (map snd pre) + weight")
    case True
    then show ?thesis unfolding up using hd nth by (simp add: a)
  next
    case False
    then show ?thesis unfolding up using hd ih by (simp add: a)
  qed
qed

lemma weighted_choice_at_spec:
  "items \<noteq> [] \<Longrightarrow> weighted_choice_at r items = Inr (spec_weighted_choice r items)"
  using weighted_choice_loop_find [of r "[]" items]
  by (simp add: weighted_choice_at_def spec_weighted_choice_def split: option.splits)


subsection \<open>Networks\<close>

lemma block_fits:
  fixes a :: nat
  assumes "a < 2 ^ w" and "k \<le> w"
  shows "a div 2 ^ k * 2 ^ k + 2 ^ k \<le> 2 ^ w"
proof -
  have w: "(2::nat) ^ w = 2 ^ (w - k) * 2 ^ k"
    using assms(2) by (simp flip: power_add)
  have "a div 2 ^ k < 2 ^ (w - k)"
    using assms(1) unfolding w by (simp add: less_mult_imp_div_less)
  then have "a div 2 ^ k + 1 \<le> 2 ^ (w - k)" by simp
  then have "(a div 2 ^ k + 1) * 2 ^ k \<le> 2 ^ (w - k) * 2 ^ k"
    by (rule mult_le_mono1)
  then show ?thesis unfolding w by (simp add: algebra_simps)
qed

lemma octets_below:
  fixes o1 o2 o3 o4 :: nat
  assumes "o1 \<le> 255" "o2 \<le> 255" "o3 \<le> 255" "o4 \<le> 255"
  shows "o1 * 2 ^ 24 + o2 * 2 ^ 16 + o3 * 2 ^ 8 + o4 < 2 ^ 32"
  using assms by simp

lemma ip_network_v4_Inr:
  assumes "ip_network (CidrV4 o1 o2 o3 o4 p) = Inr net"
  shows "\<exists>n. net = IPv4Network n p \<and> p \<le> 32 \<and> n + 2 ^ (32 - p) \<le> 2 ^ 32
           \<and> n = (o1 * 2 ^ 24 + o2 * 2 ^ 16 + o3 * 2 ^ 8 + o4) div 2 ^ (32 - p) * 2 ^ (32 - p)"
proof -
  let ?a = "o1 * 2 ^ 24 + o2 * 2 ^ 16 + o3 * 2 ^ 8 + o4"
  from assms have c: "o1 \<le> 255" "o2 \<le> 255" "o3 \<le> 255" "o4 \<le> 255" "p \<le> 32"
    and net: "net = IPv4Network (?a div 2 ^ (32 - p) * 2 ^ (32 - p)) p"
    by (auto simp: ip_network_def split: if_splits)
  have "?a < 2 ^ 32" using c(1-4) by (rule octets_below)
  then have "?a div 2 ^ (32 - p) * 2 ^ (32 - p) + 2 ^ (32 - p) \<le> 2 ^ 32"
    by (rule block_fits) simp
  with net c(5) show ?thesis by blast
qed

lemma ip_network_v6_Inr:
  assumes "ip_network (CidrV6 a p) = Inr net"
  shows "net = IPv6Network (a div 2 ^ (128 - p) * 2 ^ (128 - p)) p \<and> p \<le> 128
           \<and> a div 2 ^ (128 - p) * 2 ^ (128 - p) + 2 ^ (128 - p) \<le> 2 ^ 128"
proof -
  from assms have c: "a < 2 ^ 128" "p \<le> 128"
    and net: "net = IPv6Network (a div 2 ^ (128 - p) * 2 ^ (128 - p)) p"
    by (auto simp: ip_network_def split: if_splits)
  have "a div 2 ^ (128 - p) * 2 ^ (128 - p) + 2 ^ (128 - p) \<le> 2 ^ 128"
    using c(1) by (rule block_fits) simp
  with net c(2) show ?thesis by blast
qed

text \<open>The draw of \<open>random_ip_from_cidr\<close> on an IPv4 network.\<close>

lemma random_ip_v4:
  assumes net: "ip_network c = Inr (IPv4Network n p)" and fits: "n + 2 ^ (32 - p) \<le> 2 ^ 32"
  shows "\<exists>m. random_ip_from_cidr s c = Inr (IPv4Address m, stl s)
           \<and> (if 2 < (2::nat) ^ (32 - p) then n + 1 \<le> m \<and> m + 2 \<le> n + 2 ^ (32 - p)
               else n \<le> m \<and> m + 1 \<le> n + 2 ^ (32 - p))"
proof -
  define N :: nat where "N = 2 ^ (32 - p)"
  have num: "num_addresses (IPv4Network n p) = N" by (simp add: N_def)
  have N1: "1 \<le> N" by (simp add: N_def)
  have fitsN: "n + N \<le> 4294967296" using fits by (simp add: N_def)
  have goal: "\<exists>m. random_ip_from_cidr s c = Inr (IPv4Address m, stl s)
           \<and> (if 2 < N then n + 1 \<le> m \<and> m + 2 \<le> n + N else n \<le> m \<and> m + 1 \<le> n + N)"
  proof (cases "2 < N")
    case True
    let ?lo = "int n + 1" and ?hi = "int (n + N - 1) - 1"
    have le: "?lo \<le> ?hi" using True by linarith
    from rng_randint_total [OF le, of s] obtain k where
      k: "rng_randint ?lo ?hi s = Inr (k, stl s)" "?lo \<le> k" "k \<le> ?hi" by blast
    have "0 \<le> k \<and> k < 4294967296" using k(2,3) fitsN True by linarith
    then have "ip_address k = Inr (IPv4Address (nat k))" by (simp add: ip_address_def)
    then have "random_ip_from_cidr s c = Inr (IPv4Address (nat k), stl s)"
      using net True k(1) num by (simp add: random_ip_from_cidr_def broadcast_address_def)
    moreover have "n + 1 \<le> nat k \<and> nat k + 2 \<le> n + N" using k(2,3) True by linarith
    ultimately show ?thesis using True by auto
  next
    case False
    let ?lo = "int n" and ?hi = "int n + int N - 1"
    have le: "?lo \<le> ?hi" using N1 by linarith
    from rng_randint_total [OF le, of s] obtain k where
      k: "rng_randint ?lo ?hi s = Inr (k, stl s)" "?lo \<le> k" "k \<le> ?hi" by blast
    have "0 \<le> k \<and> k < 4294967296" using k(2,3) fitsN by linarith
    then have "ip_address k = Inr (IPv4Address (nat k))" by (simp add: ip_address_def)
    then have "random_ip_from_cidr s c = Inr (IPv4Address (nat k), stl s)"
      using net False k(1) num by (simp add: random_ip_from_cidr_def)
    moreover have "n \<le> nat k \<and> nat k + 1 \<le> n + N" using k(2,3) by linarith
    ultimately show ?thesis using False by auto
  qed
  then show ?thesis unfolding N_def .
qed

subsection \<open>The shape of a normal event\<close>

lemma normal_event_InrE:
  assumes "normal_event users start end' s = Inr (e, s')"
  obtains u s1 ts s2 src s3 auth s4 ua s5 block s6 ip s7 ctry s8 x s9 reason where
    "rng_choice users s = Inr (u, s1)"
    "random_timestamp s1 start end' (profile_hours u) = Inr (ts, s2)"
    "weighted_choice s2 event_sources = Inr (src, s3)"
    "weighted_choice s3 auth_types = Inr (auth, s4)"
    "weighted_choice s4 user_agents = Inr (ua, s5)"
    "rng_choice (known_ip_blocks u) s5 = Inr (block, s6)"
    "random_ip_from_cidr s6 block = Inr (ip, s7)"
    "sample_country u s7 = Inr (ctry, s8)"
    "draw_random s8 = Inr (x, s9)"
    "(if x < success_rate u then ret '''' else rng_choice failure_reasons) s9 = Inr (reason, s')"
    "e = \<lparr>timestamp_utc = isoformat_seconds ts, username = UserProfile.username u,
           event_source = src, auth_type = auth, source_ip = ip, country = ctry,
           result = (if x < success_rate u then ''SUCCESS'' else ''FAILURE''),
           failure_reason = reason\<rparr>"
  using assms unfolding normal_event_def
  apply (elim bnd_InrE)
  apply (simp only: Let_def)
  apply (elim bnd_InrE)
  apply (simp only: ret_Inr_iff prod.inject)
  done

subsection \<open>Instants\<close>

lemma total_seconds_int_bounds:
  assumes "0 \<le> td"
  shows "0 \<le> total_seconds_int td \<and> total_seconds_int td * 1000000 \<le> td"
proof -
  have "td div 1000000 * 1000000 \<le> td"
    using div_mult_mod_eq [of td 1000000] pos_mod_sign [of 1000000 td] by linarith
  moreover have "0 \<le> td div 1000000" using assms by (simp add: pos_imp_zdiv_nonneg_iff)
  ultimately show ?thesis using assms by (simp add: total_seconds_int_def)
qed

lemma dt_add_Inr_iff:
  "dt_add t d = Inr r \<longleftrightarrow> DT_MIN \<le> t + d \<and> t + d \<le> DT_MAX \<and> r = t + d"
  by (auto simp: dt_add_def)





subsection \<open>Timestamps of normal events\<close>

lemmas eval_defs =
  bnd_def ret_def lift_def draw_random_def rng_random_def rng_choice_def rng_randint_def
  random_ip_from_cidr_def ip_network_def ip_address_def broadcast_address_def dt_add_def
  DT_MIN_def DT_MAX_def seconds_def minutes_def hours_def isoformat_seconds_def
  example_start_def example_end_def

lemma normal_event_example:
  "generate_normal_events (sconst 0) build_user_profiles example_start example_end 1 =
     Inr ([example_normal], sconst 0)"
  by (simp add: generate_normal_events_def normal_event_def eval_defs random_timestamp_def
      build_user_profiles_def profile_hours_def weighted_choice_def weighted_choice_at_def
      event_sources_def auth_types_def user_agents_def sample_country_def
      total_seconds_int_def dt_replace_def example_normal_def)

lemma build_anomalies_example:
  "build_anomalies example_start (sconst 0) = Inr (example_anomalies, sconst 0)"
  by (simp add: build_anomalies_def impossible_travel_def off_hours_def service_account_def
      brute_force_def brute_failure_def brute_success_def eval_defs victim_def
      brute_countries_def brute_usernames_def upt_rec example_anomalies_def example_travel_def
      example_brute_def)

lemma generate_normal_events_set:
  assumes "generate_normal_events s users start end' n = Inr (evs, s')"
    and "\<And>t e t1. normal_event users start end' t = Inr (e, t1) \<Longrightarrow> Q e"
  shows "\<forall>e\<in>set evs. Q e"
  using assms(1) unfolding generate_normal_events_def
  by (rule for_loop_set) (rule assms(2))


subsection \<open>The records of the scenarios\<close>

lemma random_ip_from_cidr_host:
  assumes "random_ip_from_cidr s (CidrV4 o1 o2 o3 o4 p) = Inr (ip, s')" and "p \<le> 30"
  shows "host_of_block ip (CidrV4 o1 o2 o3 o4 p) \<and> s' = stl s"
proof -
  from assms(1) obtain net where net: "ip_network (CidrV4 o1 o2 o3 o4 p) = Inr net"
    by (auto simp: random_ip_from_cidr_def split: sum.splits)
  from ip_network_v4_Inr [OF net] obtain n where n: "net = IPv4Network n p"
    and fits: "n + 2 ^ (32 - p) \<le> 2 ^ 32" by blast
  define N :: nat where "N = 2 ^ (32 - p)"
  have "(2::nat) ^ 2 \<le> 2 ^ (32 - p)" using assms(2) by (intro power_increasing) simp_all
  then have big: "2 < N" by (simp add: N_def)
  from random_ip_v4 [OF net [unfolded n] fits, of s] big obtain m where
    r: "random_ip_from_cidr s (CidrV4 o1 o2 o3 o4 p) = Inr (IPv4Address m, stl s)"
    and m: "n + 1 \<le> m" "m + 2 \<le> n + N"
    unfolding N_def by auto
  from r assms(1) have ip: "ip = IPv4Address m" and s': "s' = stl s" by simp_all
  have "in_network ip net" using m by (simp add: ip n N_def)
  moreover have "addr_value ip \<noteq> network_address net" using m by (simp add: ip n)
  moreover have "addr_value ip \<noteq> broadcast_address net"
    using m by (simp add: ip n broadcast_address_def N_def)
  ultimately show ?thesis using net s' by (simp add: host_of_block_def)
qed

lemma random_ip_from_cidr_total:
  assumes "wf_block c"
  shows "\<exists>ip. random_ip_from_cidr s c = Inr (ip, stl s)"
proof -
  from assms obtain o1 o2 o3 o4 p where c: "c = CidrV4 o1 o2 o3 o4 p"
    and b: "o1 \<le> 255" "o2 \<le> 255" "o3 \<le> 255" "o4 \<le> 255" "p \<le> 32"
    by (cases c) auto
  then obtain net where net: "ip_network c = Inr net" by (simp add: ip_network_def)
  from ip_network_v4_Inr [OF net [unfolded c]] obtain n where n: "net = IPv4Network n p"
    and fits: "n + 2 ^ (32 - p) \<le> 2 ^ 32" by blast
  from random_ip_v4 [OF net [unfolded n] fits, of s] show ?thesis by blast
qed

lemma impossible_travel_InrE:
  assumes "impossible_travel start user s = Inr (evs, s')"
  obtains h m ip1 ip2 where "10 \<le> h" "h \<le> 40" "5 \<le> m" "m \<le> 35"
    and "host_of_block ip1 (CidrV4 203 0 113 0 24)" and "host_of_block ip2 (CidrV4 198 51 100 0 24)"
    and "evs = [\<lparr>timestamp_utc = isoformat_seconds (start + hours h), username = user,
                  event_source = ''vpn-gateway'', auth_type = ''password'', source_ip = ip1,
                  country = ''US'', result = ''SUCCESS'', failure_reason = ''''\<rparr>,
                \<lparr>timestamp_utc = isoformat_seconds (start + hours h + minutes m), username = user,
                  event_source = ''vpn-gateway'', auth_type = ''password'', source_ip = ip2,
                  country = ''JP'', result = ''SUCCESS'', failure_reason = ''''\<rparr>]"
proof -
  from assms obtain h s1 t1 s2 m s3 t2 s4 ip1 s5 ip2 s6 where
    h: "rng_randint 10 40 s = Inr (h, s1)"
    and t1: "lift (dt_add start (hours h)) s1 = Inr (t1, s2)"
    and m: "rng_randint 5 35 s2 = Inr (m, s3)"
    and t2: "lift (dt_add t1 (minutes m)) s3 = Inr (t2, s4)"
    and ip1: "random_ip_from_cidr s4 (CidrV4 203 0 113 0 24) = Inr (ip1, s5)"
    and ip2: "random_ip_from_cidr s5 (CidrV4 198 51 100 0 24) = Inr (ip2, s6)"
    and evs: "ret [\<lparr>timestamp_utc = isoformat_seconds t1, username = user,
                  event_source = ''vpn-gateway'', auth_type = ''password'', source_ip = ip1,
                  country = ''US'', result = ''SUCCESS'', failure_reason = ''''\<rparr>,
                \<lparr>timestamp_utc = isoformat_seconds t2, username = user,
                  event_source = ''vpn-gateway'', auth_type = ''password'', source_ip = ip2,
                  country = ''JP'', result = ''SUCCESS'', failure_reason = ''''\<rparr>] s6 = Inr (evs, s')"
    unfolding impossible_travel_def by (elim bnd_InrE)
  from t1 have t1': "t1 = start + hours h" by (auto simp: lift_Inr_iff dt_add_Inr_iff)
  from t2 have t2': "t2 = t1 + minutes m" by (auto simp: lift_Inr_iff dt_add_Inr_iff)
  show thesis
  proof (rule that [of h m ip1 ip2])
    show "10 \<le> h" "h \<le> 40" using rng_randint_range [OF h] by simp_all
    show "5 \<le> m" "m \<le> 35" using rng_randint_range [OF m] by simp_all
    show "host_of_block ip1 (CidrV4 203 0 113 0 24)"
      using random_ip_from_cidr_host [OF ip1] by simp
    show "host_of_block ip2 (CidrV4 198 51 100 0 24)"
      using random_ip_from_cidr_host [OF ip2] by simp
    show "evs = [\<lparr>timestamp_utc = isoformat_seconds (start + hours h), username = user,
                  event_source = ''vpn-gateway'', auth_type = ''password'', source_ip = ip1,
                  country = ''US'', result = ''SUCCESS'', failure_reason = ''''\<rparr>,
                \<lparr>timestamp_utc = isoformat_seconds (start + hours h + minutes m), username = user,
                  event_source = ''vpn-gateway'', auth_type = ''password'', source_ip = ip2,
                  country = ''JP'', result = ''SUCCESS'', failure_reason = ''''\<rparr>]"
      using evs by (simp add: ret_Inr_iff t1' t2')
  qed
qed

lemma brute_failure_InrE:
  assumes "brute_failure base brute_ip i s = Inr (e, s')"
  obtains user ctry where
    "user = (if fst (rng_random s) < 0.7 then victim
             else brute_usernames ! (shd (stl s) mod length brute_usernames))"
    and "user = victim \<or> user \<in> set brute_usernames"
    and "ctry \<in> set brute_countries"
    and "e = \<lparr>timestamp_utc = isoformat_seconds (base + minutes (int i)), username = user,
              event_source = ''linux-sshd'', auth_type = ''password'', source_ip = brute_ip,
              country = ctry, result = ''FAILURE'', failure_reason = ''bad_password''\<rparr>"
proof -
  from assms obtain t s1 x s2 user s3 ctry s4 where
    t: "lift (dt_add base (minutes (int i))) s = Inr (t, s1)"
    and x: "draw_random s1 = Inr (x, s2)"
    and user: "(if x < 0.7 then ret victim else rng_choice brute_usernames) s2 = Inr (user, s3)"
    and ctry: "rng_choice brute_countries s3 = Inr (ctry, s4)"
    and e: "ret \<lparr>timestamp_utc = isoformat_seconds t, username = user,
              event_source = ''linux-sshd'', auth_type = ''password'', source_ip = brute_ip,
              country = ctry, result = ''FAILURE'', failure_reason = ''bad_password''\<rparr> s4 = Inr (e, s')"
    unfolding brute_failure_def by (elim bnd_InrE)
  from t have t': "t = base + minutes (int i)" and s1: "s1 = s"
    by (auto simp: lift_Inr_iff dt_add_Inr_iff)
  from x have x': "x = fst (rng_random s)" and s2: "s2 = stl s"
    by (auto simp: draw_random_Inr_iff s1 rng_random_def)
  have u1: "user = (if fst (rng_random s) < 0.7 then victim
             else brute_usernames ! (shd (stl s) mod length brute_usernames))"
    using user by (auto simp: x' s2 ret_Inr_iff rng_choice_Inr_iff split: if_splits)
  have u2: "user = victim \<or> user \<in> set brute_usernames"
    using user by (auto simp: ret_Inr_iff dest: rng_choice_mem split: if_splits)
  show thesis
  proof (rule that [of user ctry])
    show "ctry \<in> set brute_countries" using rng_choice_mem [OF ctry] by simp
    show "e = \<lparr>timestamp_utc = isoformat_seconds (base + minutes (int i)), username = user,
              event_source = ''linux-sshd'', auth_type = ''password'', source_ip = brute_ip,
              country = ctry, result = ''FAILURE'', failure_reason = ''bad_password''\<rparr>"
      using e by (simp add: ret_Inr_iff t')
  qed (rule u1, rule u2)
qed

lemma brute_success_InrE:
  assumes "brute_success base brute_ip s = Inr (e, s')"
  obtains ctry where "ctry = brute_countries ! (shd s mod length brute_countries)"
    and "ctry \<in> set brute_countries"
    and "e = \<lparr>timestamp_utc = isoformat_seconds (base + minutes 13), username = victim,
              event_source = ''linux-sshd'', auth_type = ''password'', source_ip = brute_ip,
              country = ctry, result = ''SUCCESS'', failure_reason = ''''\<rparr>"
proof -
  from assms obtain t s1 ctry s2 where
    t: "lift (dt_add base (minutes 13)) s = Inr (t, s1)"
    and ctry: "rng_choice brute_countries s1 = Inr (ctry, s2)"
    and e: "ret \<lparr>timestamp_utc = isoformat_seconds t, username = victim,
              event_source = ''linux-sshd'', auth_type = ''password'', source_ip = brute_ip,
              country = ctry, result = ''SUCCESS'', failure_reason = ''''\<rparr> s2 = Inr (e, s')"
    unfolding brute_success_def by (elim bnd_InrE)
  from t have t': "t = base + minutes 13" and s1: "s1 = s"
    by (auto simp: lift_Inr_iff dt_add_Inr_iff)
  show thesis
  proof (rule that [of ctry])
    show "ctry = brute_countries ! (shd s mod length brute_countries)"
      using ctry by (simp add: rng_choice_Inr_iff s1)
    show "ctry \<in> set brute_countries" using rng_choice_mem [OF ctry] by simp
    show "e = \<lparr>timestamp_utc = isoformat_seconds (base + minutes 13), username = victim,
              event_source = ''linux-sshd'', auth_type = ''password'', source_ip = brute_ip,
              country = ctry, result = ''SUCCESS'', failure_reason = ''''\<rparr>"
      using e by (simp add: ret_Inr_iff t')
  qed
qed

lemma brute_force_InrE:
  assumes "brute_force start s = Inr (evs, s')"
  obtains h brute_ip failures success t0 t1 where "60 \<le> h" "h \<le> 90"
    and "host_of_block brute_ip (CidrV4 45 33 0 0 16)"
    and "for_loop [0..<12] (brute_failure (start + hours h) brute_ip) t0 = Inr (failures, t1)"
    and "brute_success (start + hours h) brute_ip t1 = Inr (success, s')"
    and "evs = failures @ [success]"
proof -
  from assms obtain h s1 base s2 brute_ip s3 failures s4 success s5 where
    h: "rng_randint 60 90 s = Inr (h, s1)"
    and base: "lift (dt_add start (hours h)) s1 = Inr (base, s2)"
    and ip: "random_ip_from_cidr s2 (CidrV4 45 33 0 0 16) = Inr (brute_ip, s3)"
    and fl: "for_loop [0..<12] (brute_failure base brute_ip) s3 = Inr (failures, s4)"
    and su: "brute_success base brute_ip s4 = Inr (success, s5)"
    and evs: "ret (failures @ [success]) s5 = Inr (evs, s')"
    unfolding brute_force_def by (elim bnd_InrE)
  from base have base': "base = start + hours h" by (auto simp: lift_Inr_iff dt_add_Inr_iff)
  from evs have e: "evs = failures @ [success]" and s5: "s5 = s'" by (simp_all add: ret_Inr_iff)
  show thesis
  proof (rule that [of h brute_ip s3 failures s4 success])
    show "60 \<le> h" "h \<le> 90" using rng_randint_range [OF h] by simp_all
    show "host_of_block brute_ip (CidrV4 45 33 0 0 16)"
      using random_ip_from_cidr_host [OF ip] by simp
    show "for_loop [0..<12] (brute_failure (start + hours h) brute_ip) s3 = Inr (failures, s4)"
      using fl by (simp add: base')
    show "brute_success (start + hours h) brute_ip s4 = Inr (success, s')"
      using su by (simp add: base' s5)
    show "evs = failures @ [success]" by (rule e)
  qed
qed

lemma off_hours_InrE:
  assumes "off_hours start s = Inr (e, s')"
  obtains m ip where "0 \<le> m" "m \<le> 59" and "host_of_block ip (CidrV4 198 18 0 0 15)"
    and "e = \<lparr>timestamp_utc = isoformat_seconds (start + (2 * 86400000000 + hours 3 + minutes m)),
              username = ''dave'', event_source = ''windows-ad'', auth_type = ''mfa_push'',
              source_ip = ip, country = ''AU'', result = ''SUCCESS'', failure_reason = ''''\<rparr>"
proof -
  from assms obtain m s1 t s2 ip s3 where
    m: "rng_randint 0 59 s = Inr (m, s1)"
    and t: "lift (dt_add start (2 * 86400000000 + hours 3 + minutes m)) s1 = Inr (t, s2)"
    and ip: "random_ip_from_cidr s2 (CidrV4 198 18 0 0 15) = Inr (ip, s3)"
    and e: "ret \<lparr>timestamp_utc = isoformat_seconds t,
              username = ''dave'', event_source = ''windows-ad'', auth_type = ''mfa_push'',
              source_ip = ip, country = ''AU'', result = ''SUCCESS'', failure_reason = ''''\<rparr> s3
            = Inr (e, s')"
    unfolding off_hours_def by (elim bnd_InrE)
  from t have t': "t = start + (2 * 86400000000 + hours 3 + minutes m)"
    by (auto simp: lift_Inr_iff dt_add_Inr_iff)
  show thesis
  proof (rule that [of m ip])
    show "0 \<le> m" "m \<le> 59" using rng_randint_range [OF m] by simp_all
    show "host_of_block ip (CidrV4 198 18 0 0 15)"
      using random_ip_from_cidr_host [OF ip] by simp
    show "e = \<lparr>timestamp_utc = isoformat_seconds (start + (2 * 86400000000 + hours 3 + minutes m)),
              username = ''dave'', event_source = ''windows-ad'', auth_type = ''mfa_push'',
              source_ip = ip, country = ''AU'', result = ''SUCCESS'', failure_reason = ''''\<rparr>"
      using e by (simp add: ret_Inr_iff t')
  qed
qed

lemma service_account_InrE:
  assumes "service_account start s = Inr (e, s')"
  obtains m ip where "0 \<le> m" "m \<le> 59" and "host_of_block ip (CidrV4 172 31 0 0 16)"
    and "e = \<lparr>timestamp_utc = isoformat_seconds (start + (1 * 86400000000 + hours 12 + minutes m)),
              username = ''svc_backup'', event_source = ''linux-sshd'', auth_type = ''ssh_key'',
              source_ip = ip, country = ''US'', result = ''SUCCESS'', failure_reason = ''''\<rparr>"
proof -
  from assms obtain m s1 t s2 ip s3 where
    m: "rng_randint 0 59 s = Inr (m, s1)"
    and t: "lift (dt_add start (1 * 86400000000 + hours 12 + minutes m)) s1 = Inr (t, s2)"
    and ip: "random_ip_from_cidr s2 (CidrV4 172 31 0 0 16) = Inr (ip, s3)"
    and e: "ret \<lparr>timestamp_utc = isoformat_seconds t,
              username = ''svc_backup'', event_source = ''linux-sshd'', auth_type = ''ssh_key'',
              source_ip = ip, country = ''US'', result = ''SUCCESS'', failure_reason = ''''\<rparr> s3
            = Inr (e, s')"
    unfolding service_account_def by (elim bnd_InrE)
  from t have t': "t = start + (1 * 86400000000 + hours 12 + minutes m)"
    by (auto simp: lift_Inr_iff dt_add_Inr_iff)
  show thesis
  proof (rule that [of m ip])
    show "0 \<le> m" "m \<le> 59" using rng_randint_range [OF m] by simp_all
    show "host_of_block ip (CidrV4 172 31 0 0 16)"
      using random_ip_from_cidr_host [OF ip] by simp
    show "e = \<lparr>timestamp_utc = isoformat_seconds (start + (1 * 86400000000 + hours 12 + minutes m)),
              username = ''svc_backup'', event_source = ''linux-sshd'', auth_type = ''ssh_key'',
              source_ip = ip, country = ''US'', result = ''SUCCESS'', failure_reason = ''''\<rparr>"
      using e by (simp add: ret_Inr_iff t')
  qed
qed

lemma build_anomalies_InrE:
  assumes "build_anomalies start s = Inr (an, s')"
  obtains ta tb bf off svc s1 s2 s3 s4 where
    "impossible_travel start ''alice'' s = Inr (ta, s1)"
    "impossible_travel start ''bob'' s1 = Inr (tb, s2)"
    "brute_force start s2 = Inr (bf, s3)"
    "off_hours start s3 = Inr (off, s4)"
    "service_account start s4 = Inr (svc, s')"
    "an = ta @ tb @ bf @ [off, svc]"
proof -
  from assms obtain travel s2 bf s3 off s4 svc s5 where
    tr: "for_loop [''alice'', ''bob''] (impossible_travel start) s = Inr (travel, s2)"
    and bf: "brute_force start s2 = Inr (bf, s3)"
    and off: "off_hours start s3 = Inr (off, s4)"
    and svc: "service_account start s4 = Inr (svc, s5)"
    and an: "ret (concat travel @ bf @ [off] @ [svc]) s5 = Inr (an, s')"
    unfolding build_anomalies_def by (elim bnd_InrE)
  from tr obtain ta s1 rest where ta: "impossible_travel start ''alice'' s = Inr (ta, s1)"
    and r1: "for_loop [''bob''] (impossible_travel start) s1 = Inr (rest, s2)"
    and tv: "travel = ta # rest"
    by (rule for_loop_Cons_Inr)
  from r1 obtain tb s1' rest' where tb: "impossible_travel start ''bob'' s1 = Inr (tb, s1')"
    and r2: "for_loop [] (impossible_travel start) s1' = Inr (rest', s2)"
    and rs: "rest = tb # rest'"
    by (rule for_loop_Cons_Inr)
  from r2 have "rest' = []" "s1' = s2" by simp_all
  with tb rs tv have tb': "impossible_travel start ''bob'' s1 = Inr (tb, s2)"
    and travel: "travel = [ta, tb]" by simp_all
  from an have "an = ta @ tb @ bf @ [off, svc]" and "s5 = s'"
    by (simp_all add: ret_Inr_iff travel)
  with ta tb' bf off svc show thesis by (intro that [of ta s1 tb s2 bf s3 off s4 svc]) simp_all
qed

lemma inject_anomalies_InrE:
  assumes "inject_anomalies s events start end' = Inr (combined, s')"
  obtains an s1 where "build_anomalies start s = Inr (an, s1)"
    and "combined = fst (rng_shuffle (map (tag ''false'') events @ map (tag ''true'') an) s1)"
    and "mset combined = mset (map (tag ''false'') events) + mset (map (tag ''true'') an)"
proof -
  from assms obtain an s1 where b: "build_anomalies start s = Inr (an, s1)"
    and c: "rng_shuffle (map (tag ''false'') events @ map (tag ''true'') an) s1 = (combined, s')"
    by (auto simp: inject_anomalies_def Let_def split: sum.splits prod.splits)
  from c have c': "combined = fst (rng_shuffle (map (tag ''false'') events @ map (tag ''true'') an) s1)"
    by simp
  have "mset combined = mset (map (tag ''false'') events @ map (tag ''true'') an)"
    unfolding c' by (rule rng_shuffle_mset)
  then show thesis using b c' by (intro that [of an s1]) simp_all
qed

subsection \<open>Failure reasons\<close>

lemma reason_matches_result_tag: "reason_matches_result (tag v e) = reason_matches_result e"
  by (simp add: reason_matches_result_def tag_def)

lemma normal_event_reason:
  assumes "normal_event users start end' s = Inr (e, s')"
  shows "reason_matches_result e"
proof -
  from assms obtain u s1 ts s2 src s3 auth s4 ua s5 block s6 ip s7 ctry s8 x s9 reason where
    "rng_choice users s = Inr (u, s1)"
    "random_timestamp s1 start end' (profile_hours u) = Inr (ts, s2)"
    "weighted_choice s2 event_sources = Inr (src, s3)"
    "weighted_choice s3 auth_types = Inr (auth, s4)"
    "weighted_choice s4 user_agents = Inr (ua, s5)"
    "rng_choice (known_ip_blocks u) s5 = Inr (block, s6)"
    "random_ip_from_cidr s6 block = Inr (ip, s7)"
    "sample_country u s7 = Inr (ctry, s8)"
    "draw_random s8 = Inr (x, s9)"
    and r: "(if x < success_rate u then ret [] else rng_choice failure_reasons) s9 = Inr (reason, s')"
    and e: "e = \<lparr>timestamp_utc = isoformat_seconds ts, username = UserProfile.username u,
           event_source = src, auth_type = auth, source_ip = ip, country = ctry,
           result = (if x < success_rate u then ''SUCCESS'' else ''FAILURE''),
           failure_reason = reason\<rparr>"
    by (rule normal_event_InrE)
  show ?thesis
  proof (cases "x < success_rate u")
    case True
    with r have "reason = ''''" by (simp add: ret_Inr_iff)
    with True show ?thesis by (simp add: e reason_matches_result_def)
  next
    case False
    with r have "reason \<in> set failure_reasons" by (auto dest: rng_choice_mem)
    then have "reason \<noteq> ''''" by (auto simp: failure_reasons_def)
    with False show ?thesis by (simp add: e reason_matches_result_def)
  qed
qed

lemma brute_failures_reason:
  assumes "for_loop idx (brute_failure base ip) s = Inr (failures, s')"
  shows "\<forall>e\<in>set failures. reason_matches_result e \<and> result e = ''FAILURE''
           \<and> event_source e = ''linux-sshd'' \<and> auth_type e = ''password'' \<and> source_ip e = ip"
  using assms
proof (rule for_loop_set)
  fix i t x t1
  assume "brute_failure base ip i t = Inr (x, t1)"
  then show "reason_matches_result x \<and> result x = ''FAILURE''
           \<and> event_source x = ''linux-sshd'' \<and> auth_type x = ''password'' \<and> source_ip x = ip"
    by (elim brute_failure_InrE) (simp add: reason_matches_result_def)
qed

lemma build_anomalies_reason:
  assumes "build_anomalies start s = Inr (an, s')"
  shows "\<forall>e\<in>set an. reason_matches_result e"
proof -
  from assms obtain ta tb bf off svc s1 s2 s3 s4 where
    ta: "impossible_travel start ''alice'' s = Inr (ta, s1)"
    and tb: "impossible_travel start ''bob'' s1 = Inr (tb, s2)"
    and bf: "brute_force start s2 = Inr (bf, s3)"
    and off: "off_hours start s3 = Inr (off, s4)"
    and svc: "service_account start s4 = Inr (svc, s')"
    and an: "an = ta @ tb @ bf @ [off, svc]"
    by (rule build_anomalies_InrE)
  have 1: "\<forall>e\<in>set ta. reason_matches_result e"
    using ta by (elim impossible_travel_InrE) (simp add: reason_matches_result_def)
  have 2: "\<forall>e\<in>set tb. reason_matches_result e"
    using tb by (elim impossible_travel_InrE) (simp add: reason_matches_result_def)
  from bf obtain h brute_ip failures success t0 t1 where
    fl: "for_loop [0..<12] (brute_failure (start + hours h) brute_ip) t0 = Inr (failures, t1)"
    and su: "brute_success (start + hours h) brute_ip t1 = Inr (success, s3)"
    and bfe: "bf = failures @ [success]"
    by (rule brute_force_InrE)
  have "reason_matches_result success"
    using su by (elim brute_success_InrE) (simp add: reason_matches_result_def victim_def)
  with brute_failures_reason [OF fl] have 3: "\<forall>e\<in>set bf. reason_matches_result e"
    by (auto simp: bfe)
  have 4: "reason_matches_result off"
    using off by (elim off_hours_InrE) (simp add: reason_matches_result_def)
  have 5: "reason_matches_result svc"
    using svc by (elim service_account_InrE) (simp add: reason_matches_result_def)
  from 1 2 3 4 5 show ?thesis by (auto simp: an)
qed

lemma inject_anomalies_set:
  assumes "inject_anomalies s events start end' = Inr (combined, s')"
  obtains an s1 where "build_anomalies start s = Inr (an, s1)"
    and "set combined = tag ''false'' ` set events \<union> tag ''true'' ` set an"
proof -
  from assms obtain an s1 where b: "build_anomalies start s = Inr (an, s1)"
    and m: "mset combined = mset (map (tag ''false'') events) + mset (map (tag ''true'') an)"
    by (rule inject_anomalies_InrE)
  from m have "set_mset (mset combined) = set_mset (mset (map (tag ''false'') events) + mset (map (tag ''true'') an))"
    by simp
  then have "set combined = tag ''false'' ` set events \<union> tag ''true'' ` set an" by simp
  with b show thesis by (rule that)
qed

lemma inject_anomalies_example:
  "inject_anomalies (sconst 0) [example_normal] example_start example_end =
     Inr (fst (rng_shuffle (tag ''false'' example_normal # map (tag ''true'') example_anomalies) (sconst 0)),
          snd (rng_shuffle (tag ''false'' example_normal # map (tag ''true'') example_anomalies) (sconst 0)))"
  by (simp add: inject_anomalies_def build_anomalies_example)

subsection \<open>Runs that raise nothing\<close>

lemma weighted_choice_total:
  assumes "items \<noteq> []"
  shows "\<exists>x. weighted_choice s items = Inr (x, stl s)"
  using weighted_choice_at_spec [OF assms]
  by (simp add: weighted_choice_def rng_random_def Let_def)

lemma dt_add_total: "DT_MIN \<le> t + d \<Longrightarrow> t + d \<le> DT_MAX \<Longrightarrow> dt_add t d = Inr (t + d)"
  by (simp add: dt_add_def)

lemma random_timestamp_total:
  assumes le: "start \<le> end'" and lo: "DT_MIN \<le> start" and hi: "end' \<le> DT_MAX"
    and ph: "case ph of None \<Rightarrow> True | Some (a, b) \<Rightarrow> 0 \<le> a \<and> a \<le> b \<and> b \<le> 23"
  shows "\<exists>t s'. random_timestamp s start end' ph = Inr (t, s')"
proof -
  have ts: "0 \<le> total_seconds_int (end' - start)"
    "total_seconds_int (end' - start) * 1000000 \<le> end' - start"
    using total_seconds_int_bounds [of "end' - start"] le by simp_all
  from rng_randint_total [OF ts(1), of s] obtain k where
    k: "rng_randint 0 (total_seconds_int (end' - start)) s = Inr (k, stl s)"
    and k0: "0 \<le> k" and k1: "k \<le> total_seconds_int (end' - start)" by blast
  have "k * 1000000 \<le> end' - start" using k1 ts(2) by linarith
  then have "DT_MIN \<le> start + seconds k" "start + seconds k \<le> DT_MAX"
    using k0 lo hi by (simp_all add: seconds_def)
  then have b: "dt_add start (seconds k) = Inr (start + seconds k)" by (rule dt_add_total)
  show ?thesis
  proof (cases ph)
    case None
    then show ?thesis
      by (simp add: random_timestamp_def bnd_def k b lift_def ret_def)
  next
    case (Some hh)
    obtain a c where hh: "hh = (a, c)" by (cases hh)
    from ph Some hh have r: "0 \<le> a" "a \<le> c" "c \<le> 23" by simp_all
    show ?thesis
    proof (cases "fst (rng_random (stl s)) < 0.8")
      case True
      from rng_randint_total [OF r(2), of "stl (stl s)"] obtain hour where
        h: "rng_randint a c (stl (stl s)) = Inr (hour, stl (stl (stl s)))"
        and hr: "a \<le> hour" "hour \<le> c" by blast
      from rng_randint_total [of 0 59 "stl (stl (stl s))"] obtain minute where
        m: "rng_randint 0 59 (stl (stl (stl s))) = Inr (minute, stl (stl (stl (stl s))))"
        and mr: "0 \<le> minute" "minute \<le> 59" by auto
      from rng_randint_total [of 0 59 "stl (stl (stl (stl s)))"] obtain second where
        sec: "rng_randint 0 59 (stl (stl (stl (stl s)))) = Inr (second, stl (stl (stl (stl (stl s)))))"
        and sr: "0 \<le> second" "second \<le> 59" by auto
      have "\<exists>t. dt_replace (start + seconds k) hour minute second = Inr t"
        using hr mr sr r by (simp add: dt_replace_def)
      then obtain t where rp: "dt_replace (start + seconds k) hour minute second = Inr t" ..
      show ?thesis
        using True
        by (simp add: random_timestamp_def bnd_def k b lift_def ret_def Some hh draw_random_def
            rng_random_def h m sec rp)
    next
      case False
      then show ?thesis
        by (simp add: random_timestamp_def bnd_def k b lift_def ret_def Some hh draw_random_def
            rng_random_def)
    qed
  qed
qed

lemma sample_country_total: "\<exists>c s'. sample_country u s = Inr (c, s')"
  by (simp add: sample_country_def bnd_def draw_random_def rng_random_def ret_def
      rng_choice_def alternate_countries_def)

lemma failure_reason_total:
  "\<exists>r s'. (if b then ret '''' else rng_choice failure_reasons) s = Inr (r, s')"
  by (simp add: ret_def rng_choice_def failure_reasons_def)

lemma normal_event_total:
  assumes users: "users \<noteq> []" "\<forall>u\<in>set users. wf_profile u"
    and le: "start \<le> end'" and lo: "DT_MIN \<le> start" and hi: "end' \<le> DT_MAX"
  shows "\<exists>e s'. normal_event users start end' s = Inr (e, s')"
proof -
  from rng_choice_total [OF users(1), of s] obtain u where
    u: "rng_choice users s = Inr (u, stl s)" and mem: "u \<in> set users" by blast
  from users(2) mem have wf: "wf_profile u" by blast
  have "case profile_hours u of None \<Rightarrow> True | Some (a, b) \<Rightarrow> 0 \<le> a \<and> a \<le> b \<and> b \<le> 23"
    using wf by (cases "usual_hours u") (simp add: profile_hours_def wf_profile_def)
  from random_timestamp_total [OF le lo hi this, of "stl s"] obtain ts s2 where
    ts: "random_timestamp (stl s) start end' (profile_hours u) = Inr (ts, s2)" by blast
  from weighted_choice_total [of event_sources s2] obtain src where
    src: "weighted_choice s2 event_sources = Inr (src, stl s2)"
    by (auto simp: event_sources_def)
  from weighted_choice_total [of auth_types "stl s2"] obtain auth where
    auth: "weighted_choice (stl s2) auth_types = Inr (auth, stl (stl s2))"
    by (auto simp: auth_types_def)
  from weighted_choice_total [of user_agents "stl (stl s2)"] obtain ua where
    ua: "weighted_choice (stl (stl s2)) user_agents = Inr (ua, stl (stl (stl s2)))"
    by (auto simp: user_agents_def)
  define s5 where "s5 = stl (stl (stl s2))"
  from wf have "known_ip_blocks u \<noteq> []" by (simp add: wf_profile_def)
  from rng_choice_total [OF this, of s5] obtain block where
    block: "rng_choice (known_ip_blocks u) s5 = Inr (block, stl s5)"
    and bmem: "block \<in> set (known_ip_blocks u)" by blast
  from wf bmem have "wf_block block" by (simp add: wf_profile_def)
  from random_ip_from_cidr_total [OF this, of "stl s5"] obtain ip where
    ip: "random_ip_from_cidr (stl s5) block = Inr (ip, stl (stl s5))" by blast
  from sample_country_total [of u "stl (stl s5)"] obtain ctry s8 where
    ctry: "sample_country u (stl (stl s5)) = Inr (ctry, s8)" by blast
  from failure_reason_total [of "fst (rng_random s8) < success_rate u" "snd (rng_random s8)"]
  obtain reason s10 where
    reason: "(if fst (rng_random s8) < success_rate u then ret '''' else rng_choice failure_reasons)
       (snd (rng_random s8)) = Inr (reason, s10)" by blast
  show ?thesis
    unfolding normal_event_def
    by (simp add: bnd_def u ts src auth ua s5_def [symmetric] block ip ctry draw_random_def
        Let_def split_beta reason ret_def)
qed

lemma generate_normal_events_total:
  assumes "users \<noteq> []" "\<forall>u\<in>set users. wf_profile u"
    and "start \<le> end'" "DT_MIN \<le> start" "end' \<le> DT_MAX"
  shows "\<exists>evs s'. generate_normal_events s users start end' n = Inr (evs, s')"
  unfolding generate_normal_events_def
  by (rule for_loop_total) (rule normal_event_total [OF assms])

lemma wf_build_user_profiles:
  "build_user_profiles \<noteq> [] \<and> (\<forall>u\<in>set build_user_profiles. wf_profile u)"
  by (simp add: build_user_profiles_def wf_profile_def)

lemma random_ip_from_cidr_total_v4:
  assumes "o1 \<le> 255" "o2 \<le> 255" "o3 \<le> 255" "o4 \<le> 255" "p \<le> 32"
  shows "\<exists>ip. random_ip_from_cidr s (CidrV4 o1 o2 o3 o4 p) = Inr (ip, stl s)"
  by (rule random_ip_from_cidr_total) (simp add: assms)

lemma impossible_travel_total:
  assumes lo: "DT_MIN \<le> start" and hi: "start + hours 90 + minutes 13 \<le> DT_MAX"
  shows "\<exists>evs s'. impossible_travel start user s = Inr (evs, s')"
proof -
  from rng_randint_total [of 10 40 s] obtain h where
    h: "rng_randint 10 40 s = Inr (h, stl s)" and hr: "10 \<le> h" "h \<le> 40" by auto
  have t1: "dt_add start (hours h) = Inr (start + hours h)"
    using lo hi hr by (intro dt_add_total) (simp_all add: hours_def minutes_def)
  from rng_randint_total [of 5 35 "stl s"] obtain m where
    m: "rng_randint 5 35 (stl s) = Inr (m, stl (stl s))" and mr: "5 \<le> m" "m \<le> 35" by auto
  have t2: "dt_add (start + hours h) (minutes m) = Inr (start + hours h + minutes m)"
    using lo hi hr mr by (intro dt_add_total) (simp_all add: hours_def minutes_def)
  from random_ip_from_cidr_total_v4 [of 203 0 113 0 24 "stl (stl s)"] obtain ip1 where
    ip1: "random_ip_from_cidr (stl (stl s)) (CidrV4 203 0 113 0 24) = Inr (ip1, stl (stl (stl s)))"
    by auto
  from random_ip_from_cidr_total_v4 [of 198 51 100 0 24 "stl (stl (stl s))"] obtain ip2 where
    ip2: "random_ip_from_cidr (stl (stl (stl s))) (CidrV4 198 51 100 0 24)
            = Inr (ip2, stl (stl (stl (stl s))))"
    by auto
  show ?thesis
    unfolding impossible_travel_def
    by (simp add: bnd_def h t1 m t2 ip1 ip2 lift_def ret_def)
qed

lemma brute_failure_total:
  assumes "DT_MIN \<le> base + minutes (int i)" "base + minutes (int i) \<le> DT_MAX"
  shows "\<exists>e s'. brute_failure base ip i s = Inr (e, s')"
proof -
  have t: "dt_add base (minutes (int i)) = Inr (base + minutes (int i))"
    using assms by (rule dt_add_total)
  have d: "draw_random s = Inr (fst (rng_random s), stl s)"
    by (simp add: draw_random_def rng_random_def)
  have "\<exists>u s3. (if fst (rng_random s) < 0.7 then ret victim else rng_choice brute_usernames)
             (stl s) = Inr (u, s3)"
    by (simp add: ret_def rng_choice_def brute_usernames_def)
  then obtain u s3 where u: "(if fst (rng_random s) < 0.7 then ret victim else rng_choice brute_usernames)
             (stl s) = Inr (u, s3)" by blast
  from rng_choice_total [of brute_countries s3] obtain c where
    c: "rng_choice brute_countries s3 = Inr (c, stl s3)" by (auto simp: brute_countries_def)
  have "brute_failure base ip i s =
      Inr (\<lparr>timestamp_utc = isoformat_seconds (base + minutes (int i)), username = u,
            event_source = ''linux-sshd'', auth_type = ''password'', source_ip = ip,
            country = c, result = ''FAILURE'', failure_reason = ''bad_password''\<rparr>, stl s3)"
    unfolding brute_failure_def
    apply (rule bnd_InrI [where x = "base + minutes (int i)" and ?s1.0 = s])
     apply (simp add: lift_def t)
    apply (rule bnd_InrI, rule d)
    apply (rule bnd_InrI, rule u)
    apply (rule bnd_InrI, rule c)
    apply (simp add: ret_def)
    done
  then show ?thesis by blast
qed

lemma brute_success_total:
  assumes "DT_MIN \<le> base + minutes 13" "base + minutes 13 \<le> DT_MAX"
  shows "\<exists>e s'. brute_success base ip s = Inr (e, s')"
proof -
  have t: "dt_add base (minutes 13) = Inr (base + minutes 13)"
    using assms by (rule dt_add_total)
  from rng_choice_total [of brute_countries s] obtain c where
    c: "rng_choice brute_countries s = Inr (c, stl s)" by (auto simp: brute_countries_def)
  show ?thesis
    unfolding brute_success_def
    by (simp add: bnd_def t lift_def c ret_def)
qed

lemma brute_force_total:
  assumes lo: "DT_MIN \<le> start" and hi: "start + hours 90 + minutes 13 \<le> DT_MAX"
  shows "\<exists>evs s'. brute_force start s = Inr (evs, s')"
proof -
  from rng_randint_total [of 60 90 s] obtain h where
    h: "rng_randint 60 90 s = Inr (h, stl s)" and hr: "60 \<le> h" "h \<le> 90" by auto
  have base: "dt_add start (hours h) = Inr (start + hours h)"
    using lo hi hr by (intro dt_add_total) (simp_all add: hours_def minutes_def)
  from random_ip_from_cidr_total_v4 [of 45 33 0 0 16 "stl s"] obtain ip where
    ip: "random_ip_from_cidr (stl s) (CidrV4 45 33 0 0 16) = Inr (ip, stl (stl s))" by auto
  have "\<exists>fs s4. for_loop [0..<12] (brute_failure (start + hours h) ip) (stl (stl s)) = Inr (fs, s4)"
  proof (rule for_loop_total)
    fix i :: nat and t
    assume "i \<in> set [0..<12]"
    then have i: "i < 12" by simp
    show "\<exists>x t1. brute_failure (start + hours h) ip i t = Inr (x, t1)"
      using lo hi hr i by (intro brute_failure_total) (simp_all add: hours_def minutes_def)
  qed
  then obtain fs s4 where
    fs: "for_loop [0..<12] (brute_failure (start + hours h) ip) (stl (stl s)) = Inr (fs, s4)"
    by blast
  have "\<exists>e s5. brute_success (start + hours h) ip s4 = Inr (e, s5)"
    using lo hi hr by (intro brute_success_total) (simp_all add: hours_def minutes_def)
  then obtain e s5 where su: "brute_success (start + hours h) ip s4 = Inr (e, s5)" by blast
  show ?thesis
    unfolding brute_force_def
    by (simp add: bnd_def h base lift_def ip fs su ret_def)
qed

lemma off_hours_total:
  assumes lo: "DT_MIN \<le> start" and hi: "start + hours 90 + minutes 13 \<le> DT_MAX"
  shows "\<exists>e s'. off_hours start s = Inr (e, s')"
proof -
  from rng_randint_total [of 0 59 s] obtain m where
    m: "rng_randint 0 59 s = Inr (m, stl s)" and mr: "0 \<le> m" "m \<le> 59" by auto
  have t: "dt_add start (172800000000 + hours 3 + minutes m)
             = Inr (start + (172800000000 + hours 3 + minutes m))"
    using lo hi mr by (intro dt_add_total) (simp_all add: hours_def minutes_def)
  from random_ip_from_cidr_total_v4 [of 198 18 0 0 15 "stl s"] obtain ip where
    ip: "random_ip_from_cidr (stl s) (CidrV4 198 18 0 0 15) = Inr (ip, stl (stl s))" by auto
  show ?thesis
    unfolding off_hours_def by (simp add: bnd_def m t lift_def ip ret_def)
qed

lemma service_account_total:
  assumes lo: "DT_MIN \<le> start" and hi: "start + hours 90 + minutes 13 \<le> DT_MAX"
  shows "\<exists>e s'. service_account start s = Inr (e, s')"
proof -
  from rng_randint_total [of 0 59 s] obtain m where
    m: "rng_randint 0 59 s = Inr (m, stl s)" and mr: "0 \<le> m" "m \<le> 59" by auto
  have t: "dt_add start (86400000000 + hours 12 + minutes m)
             = Inr (start + (86400000000 + hours 12 + minutes m))"
    using lo hi mr by (intro dt_add_total) (simp_all add: hours_def minutes_def)
  from random_ip_from_cidr_total_v4 [of 172 31 0 0 16 "stl s"] obtain ip where
    ip: "random_ip_from_cidr (stl s) (CidrV4 172 31 0 0 16) = Inr (ip, stl (stl s))" by auto
  show ?thesis
    unfolding service_account_def by (simp add: bnd_def m t lift_def ip ret_def)
qed

lemma build_anomalies_total:
  assumes lo: "DT_MIN \<le> start" and hi: "start + hours 90 + minutes 13 \<le> DT_MAX"
  shows "\<exists>an s'. build_anomalies start s = Inr (an, s')"
proof -
  from impossible_travel_total [OF lo hi, of "''alice''" s] obtain ta s1 where
    ta: "impossible_travel start ''alice'' s = Inr (ta, s1)" by blast
  from impossible_travel_total [OF lo hi, of "''bob''" s1] obtain tb s2 where
    tb: "impossible_travel start ''bob'' s1 = Inr (tb, s2)" by blast
  from brute_force_total [OF lo hi, of s2] obtain bf s3 where
    bf: "brute_force start s2 = Inr (bf, s3)" by blast
  from off_hours_total [OF lo hi, of s3] obtain off s4 where
    off: "off_hours start s3 = Inr (off, s4)" by blast
  from service_account_total [OF lo hi, of s4] obtain svc s5 where
    svc: "service_account start s4 = Inr (svc, s5)" by blast
  show ?thesis
    unfolding build_anomalies_def by (simp add: bnd_def ta tb bf off svc ret_def)
qed

lemma inject_anomalies_total:
  assumes lo: "DT_MIN \<le> start" and hi: "start + hours 90 + minutes 13 \<le> DT_MAX"
  shows "\<exists>combined s'. inject_anomalies s events start end' = Inr (combined, s')"
proof -
  from build_anomalies_total [OF lo hi, of s] obtain an s1 where
    "build_anomalies start s = Inr (an, s1)" by blast
  then show ?thesis
    by (simp add: inject_anomalies_def Let_def)
qed

lemma build_anomalies_length:
  assumes "build_anomalies start s = Inr (an, s')"
  shows "length an = 19"
proof -
  from assms obtain ta tb bf off svc s1 s2 s3 s4 where
    ta: "impossible_travel start ''alice'' s = Inr (ta, s1)"
    and tb: "impossible_travel start ''bob'' s1 = Inr (tb, s2)"
    and bf: "brute_force start s2 = Inr (bf, s3)"
    and off: "off_hours start s3 = Inr (off, s4)"
    and svc: "service_account start s4 = Inr (svc, s')"
    and an: "an = ta @ tb @ bf @ [off, svc]"
    by (rule build_anomalies_InrE)
  have 1: "length ta = 2" using ta by (elim impossible_travel_InrE) simp
  have 2: "length tb = 2" using tb by (elim impossible_travel_InrE) simp
  from bf obtain h brute_ip failures success t0 t1 where
    fl: "for_loop [0..<12] (brute_failure (start + hours h) brute_ip) t0 = Inr (failures, t1)"
    and bfe: "bf = failures @ [success]"
    by (rule brute_force_InrE)
  from for_loop_length [OF fl] have "length failures = 12" by simp
  with bfe have 3: "length bf = 13" by simp
  from 1 2 3 show ?thesis by (simp add: an)
qed

lemma inject_anomalies_counts:
  assumes "inject_anomalies s events start end' = Inr (combined, s')"
  shows "length combined = length events + 19"
    and "length (filter (\<lambda>e. is_injected_anomaly e = ''true'') combined) = 19"
    and "length (filter (\<lambda>e. is_injected_anomaly e = ''false'') combined) = length events"
    and "\<forall>e\<in>set combined. is_injected_anomaly e = ''true'' \<or> is_injected_anomaly e = ''false''"
proof -
  from assms obtain an s1 where b: "build_anomalies start s = Inr (an, s1)"
    and m: "mset combined = mset (map (tag ''false'') events) + mset (map (tag ''true'') an)"
    by (rule inject_anomalies_InrE)
  have len: "length an = 19" using b by (rule build_anomalies_length)
  have m': "mset combined = mset (map (tag ''false'') events @ map (tag ''true'') an)"
    using m by simp
  from m' have "length combined = length (map (tag ''false'') events @ map (tag ''true'') an)"
    by (rule mset_eq_length)
  then show "length combined = length events + 19" using len by simp
  have f: "\<And>P. length (filter P combined)
            = length (filter P (map (tag ''false'') events @ map (tag ''true'') an))"
  proof -
    fix P
    have "mset (filter P combined) = mset (filter P (map (tag ''false'') events @ map (tag ''true'') an))"
      unfolding mset_filter m' ..
    then show "length (filter P combined)
            = length (filter P (map (tag ''false'') events @ map (tag ''true'') an))"
      by (rule mset_eq_length)
  qed
  show "length (filter (\<lambda>e. is_injected_anomaly e = ''true'') combined) = 19"
    unfolding f using len by (simp add: filter_map comp_def tag_def)
  show "length (filter (\<lambda>e. is_injected_anomaly e = ''false'') combined) = length events"
    unfolding f by (simp add: filter_map comp_def tag_def)
  from m' have "set combined = set (map (tag ''false'') events @ map (tag ''true'') an)"
    by (rule mset_eq_setD)
  then show "\<forall>e\<in>set combined. is_injected_anomaly e = ''true'' \<or> is_injected_anomaly e = ''false''"
    by (auto simp: tag_def)
qed

subsection \<open>The run as a whole\<close>

lemma generate_normal_events_length:
  assumes "generate_normal_events s users start end' n = Inr (evs, s')"
  shows "length evs = nat n"
  using for_loop_length [OF assms [unfolded generate_normal_events_def]] by simp

lemma main_InrE:
  assumes "main seeding now args = Inr combined"
  obtains td start normal s1 s2 where "timedelta_days (days args) = Inr td"
    and "dt_add now (- td) = Inr start"
    and "generate_normal_events (seeding (seed args)) build_user_profiles start now (rows args)
           = Inr (normal, s1)"
    and "inject_anomalies s1 normal start now = Inr (combined, s2)"
  using assms by (auto simp: main_def Let_def split: sum.splits prod.splits)

lemma main_total:
  assumes days: "0 \<le> days args" and now: "now \<le> DT_MAX"
    and lo: "DT_MIN \<le> now - days args * 86400000000"
    and hi: "now - days args * 86400000000 + hours 90 + minutes 13 \<le> DT_MAX"
  shows "\<exists>combined. main seeding now args = Inr combined"
proof -
  define start where "start = now - days args * 86400000000"
  have "days args * 86400000000 \<le> 315537897599999999"
    using now lo by (simp add: DT_MIN_def DT_MAX_def)
  then have "days args \<le> 999999999" by linarith
  with days have td: "timedelta_days (days args) = Inr (days args * 86400000000)"
    by (simp add: timedelta_days_def)
  have le: "start \<le> now" using days by (simp add: start_def)
  have st: "dt_add now (- (days args * 86400000000)) = Inr start"
    using lo le now by (simp add: dt_add_def start_def)
  from wf_build_user_profiles have u: "build_user_profiles \<noteq> []"
    "\<forall>u\<in>set build_user_profiles. wf_profile u" by simp_all
  from generate_normal_events_total [OF u le lo [folded start_def] now]
  obtain normal s1 where
    g: "generate_normal_events (seeding (seed args)) build_user_profiles start now (rows args)
           = Inr (normal, s1)" by blast
  from inject_anomalies_total [OF lo [folded start_def] hi [folded start_def]]
  obtain combined s2 where i: "inject_anomalies s1 normal start now = Inr (combined, s2)"
    by blast
  show ?thesis by (simp add: main_def td st g i)
qed



text \<open>
  Claim C1. Whenever the run returns its combined output for a rows count \<open>N\<close>, the output
  has \<open>N + 19\<close> records (\<open>nat N\<close> is \<open>N\<close> for \<open>N \<ge> 0\<close>; a negative count generates no
  normal row), exactly 19 of them tagged \<open>"true"\<close> and exactly \<open>N\<close> tagged \<open>"false"\<close>, and
  every tag is one of the two. The run does return an output for every rows count when
  the window is not negative and the instants it computes, up to 90 hours and 13 minutes
  after the start of the window, are instants the library can represent.
\<close>

theorem main_row_counts:
  "(main seeding now args = Inr combined \<longrightarrow>
      length combined = nat (rows args) + 19
      \<and> length (filter (\<lambda>e. is_injected_anomaly e = ''true'') combined) = 19
      \<and> length (filter (\<lambda>e. is_injected_anomaly e = ''false'') combined) = nat (rows args)
      \<and> (\<forall>e\<in>set combined. is_injected_anomaly e = ''true'' \<or> is_injected_anomaly e = ''false''))
   \<and> (0 \<le> days args \<and> now \<le> DT_MAX \<and> DT_MIN \<le> now - days args * 86400000000
        \<and> now - days args * 86400000000 + hours 90 + minutes 13 \<le> DT_MAX \<longrightarrow>
      (\<exists>combined'. main seeding now args = Inr combined'))"
proof (intro conjI impI)
  assume "main seeding now args = Inr combined"
  then obtain td start normal s1 s2 where
    g: "generate_normal_events (seeding (seed args)) build_user_profiles start now (rows args)
           = Inr (normal, s1)"
    and i: "inject_anomalies s1 normal start now = Inr (combined, s2)"
    by (rule main_InrE)
  have n: "length normal = nat (rows args)" using g by (rule generate_normal_events_length)
  show "length combined = nat (rows args) + 19"
    using inject_anomalies_counts(1) [OF i] n by simp
  show "length (filter (\<lambda>e. is_injected_anomaly e = ''true'') combined) = 19"
    using i by (rule inject_anomalies_counts(2))
  show "length (filter (\<lambda>e. is_injected_anomaly e = ''false'') combined) = nat (rows args)"
    using inject_anomalies_counts(3) [OF i] n by simp
  show "\<forall>e\<in>set combined. is_injected_anomaly e = ''true'' \<or> is_injected_anomaly e = ''false''"
    using i by (rule inject_anomalies_counts(4))
next
  assume "0 \<le> days args \<and> now \<le> DT_MAX \<and> DT_MIN \<le> now - days args * 86400000000
        \<and> now - days args * 86400000000 + hours 90 + minutes 13 \<le> DT_MAX"
  then show "\<exists>combined'. main seeding now args = Inr combined'"
    by (intro main_total) simp_all
qed

theorem main_row_counts_witness:
  "(0 :: int) \<le> 7 \<and> (1762214400000000 :: int) \<le> DT_MAX
   \<and> DT_MIN \<le> 1762214400000000 - 7 * 86400000000
   \<and> 1762214400000000 - 7 * 86400000000 + hours 90 + minutes 13 \<le> DT_MAX
   \<and> (\<exists>combined. main (\<lambda>seed. sconst 0) 1762214400000000
                \<lparr>rows = 3, days = 7, seed = 1337, out = ''sample_auth_logs.csv''\<rparr> = Inr combined
            \<and> length combined = 22
            \<and> length (filter (\<lambda>e. is_injected_anomaly e = ''true'') combined) = 19
            \<and> length (filter (\<lambda>e. is_injected_anomaly e = ''false'') combined) = 3)"
proof -
  let ?args = "\<lparr>rows = 3, days = 7, seed = 1337, out = ''sample_auth_logs.csv''\<rparr>"
  let ?now = "1762214400000000 :: int"
  have pre: "(0 :: int) \<le> 7" "?now \<le> DT_MAX" "DT_MIN \<le> ?now - 7 * 86400000000"
    "?now - 7 * 86400000000 + hours 90 + minutes 13 \<le> DT_MAX"
    by (simp_all add: DT_MIN_def DT_MAX_def hours_def minutes_def)
  have "\<exists>combined'. main (\<lambda>seed. sconst 0) ?now ?args = Inr combined'"
    using main_row_counts [of "\<lambda>seed. sconst 0" ?now ?args] pre by simp
  then obtain combined' where r: "main (\<lambda>seed. sconst 0) ?now ?args = Inr combined'" ..
  from main_row_counts [of "\<lambda>seed. sconst 0" ?now ?args combined'] r
  have "length combined' = 22"
    "length (filter (\<lambda>e. is_injected_anomaly e = ''true'') combined') = 19"
    "length (filter (\<lambda>e. is_injected_anomaly e = ''false'') combined') = 3"
    by simp_all
  with r pre show ?thesis by blast
qed

text \<open>
  Claim C2. In the combined output of the normal generation followed by the anomaly
  injection, every record has a non-empty \<open>failure_reason\<close> exactly when its \<open>result\<close> is
  \<open>FAILURE\<close>, and an empty one exactly when its \<open>result\<close> is \<open>SUCCESS\<close>.
\<close>

theorem failure_reason_iff_failure:
  assumes "generate_normal_events s users start end' n = Inr (normal, s1)"
    and "inject_anomalies s1 normal start end' = Inr (combined, s2)"
  shows "\<forall>e\<in>set combined.
           (failure_reason e \<noteq> '''' \<longleftrightarrow> result e = ''FAILURE'')
         \<and> (failure_reason e = '''' \<longleftrightarrow> result e = ''SUCCESS'')"
proof -
  have n: "\<forall>e\<in>set normal. reason_matches_result e"
    using assms(1) by (rule generate_normal_events_set) (rule normal_event_reason)
  from assms(2) obtain an t where b: "build_anomalies start s1 = Inr (an, t)"
    and c: "set combined = tag ''false'' ` set normal \<union> tag ''true'' ` set an"
    by (rule inject_anomalies_set)
  from build_anomalies_reason [OF b] n c have "\<forall>e\<in>set combined. reason_matches_result e"
    by (auto simp: reason_matches_result_tag)
  then show ?thesis unfolding reason_matches_result_def .
qed

theorem failure_reason_iff_failure_witness:
  "generate_normal_events (sconst 0) build_user_profiles example_start example_end 1 =
     Inr ([example_normal], sconst 0)
   \<and> inject_anomalies (sconst 0) [example_normal] example_start example_end =
     Inr (fst (rng_shuffle (tag ''false'' example_normal # map (tag ''true'') example_anomalies) (sconst 0)),
          snd (rng_shuffle (tag ''false'' example_normal # map (tag ''true'') example_anomalies) (sconst 0)))
   \<and> tag ''false'' example_normal
       \<in> set (fst (rng_shuffle (tag ''false'' example_normal # map (tag ''true'') example_anomalies) (sconst 0)))
   \<and> ((failure_reason (tag ''false'' example_normal) = '''')
        = (result (tag ''false'' example_normal) = ''SUCCESS''))
   \<and> result (tag ''false'' example_normal) = ''SUCCESS''"
proof -
  let ?L = "tag ''false'' example_normal # map (tag ''true'') example_anomalies"
  have "mset (fst (rng_shuffle ?L (sconst 0))) = mset ?L" by (rule rng_shuffle_mset)
  then have "set (fst (rng_shuffle ?L (sconst 0))) = set ?L" by (rule mset_eq_setD)
  then have mem: "tag ''false'' example_normal \<in> set (fst (rng_shuffle ?L (sconst 0)))" by simp
  have res: "result (tag ''false'' example_normal) = ''SUCCESS''"
    by (simp add: tag_def example_normal_def)
  from failure_reason_iff_failure [OF normal_event_example inject_anomalies_example] mem
  have "(failure_reason (tag ''false'' example_normal) = '''')
        = (result (tag ''false'' example_normal) = ''SUCCESS'')"
    by blast
  with normal_event_example inject_anomalies_example mem res show ?thesis by blast
qed




subsection \<open>Addresses of IPv6 blocks\<close>

lemma random_ip_v6:
  assumes net: "ip_network c = Inr (IPv6Network n p)" and fits: "n + 2 ^ (128 - p) \<le> 2 ^ 128"
  shows "\<exists>m. n \<le> m \<and> m + 1 \<le> n + 2 ^ (128 - p)
           \<and> random_ip_from_cidr s c
               = Inr (if m < 2 ^ 32 then IPv4Address m else IPv6Address m, stl s)"
proof -
  define N :: nat where "N = 2 ^ (128 - p)"
  have num: "num_addresses (IPv6Network n p) = N" by (simp add: N_def)
  have N1: "1 \<le> N" by (simp add: N_def)
  have fitsN: "n + N \<le> 340282366920938463463374607431768211456" using fits by (simp add: N_def)
  let ?lo = "int n" and ?hi = "int n + int N - 1"
  have le: "?lo \<le> ?hi" using N1 by linarith
  from rng_randint_total [OF le, of s] obtain k where
    k: "rng_randint ?lo ?hi s = Inr (k, stl s)" "?lo \<le> k" "k \<le> ?hi" by blast
  have k128: "0 \<le> k \<and> k < 340282366920938463463374607431768211456"
    using k(2,3) fitsN by linarith
  have "ip_address k = Inr (if nat k < 2 ^ 32 then IPv4Address (nat k) else IPv6Address (nat k))"
    using k128 by (auto simp: ip_address_def)
  then have "random_ip_from_cidr s c
      = Inr (if nat k < 2 ^ 32 then IPv4Address (nat k) else IPv6Address (nat k), stl s)"
    using net k(1) num by (simp add: random_ip_from_cidr_def)
  moreover have "n \<le> nat k \<and> nat k + 1 \<le> n + N" using k(2,3) by linarith
  ultimately have "\<exists>m. n \<le> m \<and> m + 1 \<le> n + N
           \<and> random_ip_from_cidr s c
               = Inr (if m < 2 ^ 32 then IPv4Address m else IPv6Address m, stl s)"
    by blast
  then show ?thesis unfolding N_def .
qed

text \<open>
  Claim C7, at the input on which the code departs from it. The block \<open>::1/128\<close> holds
  the single IPv6 address \<open>::1\<close>. \<open>random_ip_from_cidr\<close> draws the integer 1 from it and
  hands it to \<open>ipaddress.ip_address\<close>, which reads an integer below \<open>2^32\<close> as IPv4: the
  function returns the text of the IPv4 address \<open>0.0.0.1\<close>, which is not an address of
  the block.
\<close>

theorem random_ip_from_cidr_ipv6_low_block:
  "ip_network (CidrV6 1 128) = Inr (IPv6Network 1 128)
   \<and> random_ip_from_cidr s (CidrV6 1 128) = Inr (IPv4Address 1, stl s)
   \<and> in_network (IPv6Address 1) (IPv6Network 1 128)
   \<and> \<not> in_network (IPv4Address 1) (IPv6Network 1 128)"
  by (simp add: random_ip_from_cidr_def ip_network_def rng_randint_def ip_address_def)



subsection \<open>Countries of normal events\<close>

lemma sample_country_Inr:
  assumes "sample_country u t = Inr (c, t')"
  shows "c = (if fst (rng_random t) < 0.92 then home_country u
              else alternate_countries ! (shd (stl t) mod length alternate_countries))"
    and "c = home_country u \<or> c \<in> set alternate_countries"
proof -
  from assms obtain x t1 where x: "draw_random t = Inr (x, t1)"
    and r: "(if x < 0.92 then ret (home_country u) else rng_choice alternate_countries) t1 = Inr (c, t')"
    unfolding sample_country_def by (elim bnd_InrE)
  from x have x': "x = fst (rng_random t)" and t1: "t1 = stl t"
    by (auto simp: draw_random_Inr_iff rng_random_def)
  show "c = (if fst (rng_random t) < 0.92 then home_country u
              else alternate_countries ! (shd (stl t) mod length alternate_countries))"
    using r by (auto simp: x' t1 ret_Inr_iff rng_choice_Inr_iff split: if_splits)
  show "c = home_country u \<or> c \<in> set alternate_countries"
    using r by (auto simp: ret_Inr_iff dest: rng_choice_mem split: if_splits)
qed

lemma normal_event_country:
  assumes "normal_event users start end' s = Inr (e, s')"
  shows "\<exists>u\<in>set users. \<exists>t t'. UserProfile.username u = username e
           \<and> sample_country u t = Inr (country e, t')"
proof -
  from assms obtain u s1 ts s2 src s3 auth s4 ua s5 block s6 ip s7 ctry s8 x s9 reason where
    u: "rng_choice users s = Inr (u, s1)"
    and "random_timestamp s1 start end' (profile_hours u) = Inr (ts, s2)"
    "weighted_choice s2 event_sources = Inr (src, s3)"
    "weighted_choice s3 auth_types = Inr (auth, s4)"
    "weighted_choice s4 user_agents = Inr (ua, s5)"
    "rng_choice (known_ip_blocks u) s5 = Inr (block, s6)"
    "random_ip_from_cidr s6 block = Inr (ip, s7)"
    and c: "sample_country u s7 = Inr (ctry, s8)"
    and "draw_random s8 = Inr (x, s9)"
    "(if x < success_rate u then ret [] else rng_choice failure_reasons) s9 = Inr (reason, s')"
    and e: "e = \<lparr>timestamp_utc = isoformat_seconds ts, username = UserProfile.username u,
           event_source = src, auth_type = auth, source_ip = ip, country = ctry,
           result = (if x < success_rate u then ''SUCCESS'' else ''FAILURE''),
           failure_reason = reason\<rparr>"
    by (rule normal_event_InrE)
  from rng_choice_mem [OF u] have "u \<in> set users" by simp
  moreover have "UserProfile.username u = username e" by (simp add: e)
  moreover have "sample_country u s7 = Inr (country e, s8)" using c by (simp add: e)
  ultimately show ?thesis by blast
qed

lemma home_country_example:
  "generate_normal_events ([0, 0, 0, 0, 0, 0, 0, 0, 0, 0, 0] @- (9007199254740991 ## sconst 0))
      build_user_profiles example_start example_end 1
     = Inr ([example_normal], sconst 0)"
  by (simp add: generate_normal_events_def normal_event_def eval_defs random_timestamp_def
      build_user_profiles_def profile_hours_def weighted_choice_def weighted_choice_at_def
      event_sources_def auth_types_def user_agents_def sample_country_def
      total_seconds_int_def dt_replace_def example_normal_def alternate_countries_def)

lemma sample_country_example:
  "sample_country (build_user_profiles ! 0) (9007199254740991 ## sconst 0) = Inr (''US'', sconst 0)"
  by (simp add: sample_country_def eval_defs build_user_profiles_def alternate_countries_def)

text \<open>
  Claim C9, as amended. The country of every normal event is the value of line 113 for a
  profile with the event's username: the profile's home country when the draw
  \<open>rng.random()\<close> is below 0.92, and otherwise the element of the fixed list of seven
  codes selected by one further draw. The list is the same for every user and is not
  filtered: it contains the home country of every built-in profile, so the second branch
  can return the home country again.
\<close>

theorem country_home_or_fixed_list:
  "(generate_normal_events s users start end' n = Inr (evs, s') \<longrightarrow>
      (\<forall>e\<in>set evs. \<exists>u\<in>set users. \<exists>t t'. UserProfile.username u = username e
           \<and> sample_country u t = Inr (country e, t')))
   \<and> (sample_country u t = Inr (c, t') \<longrightarrow>
         c = (if fst (rng_random t) < 0.92 then home_country u
              else alternate_countries ! (shd (stl t) mod 7))
       \<and> (c = home_country u \<or> c \<in> set alternate_countries))
   \<and> alternate_countries = [''US'', ''CA'', ''GB'', ''DE'', ''FR'', ''AU'', ''JP'']
   \<and> (\<forall>p\<in>set build_user_profiles. home_country p \<in> set alternate_countries)"
proof (intro conjI impI)
  assume g: "generate_normal_events s users start end' n = Inr (evs, s')"
  show "\<forall>e\<in>set evs. \<exists>u\<in>set users. \<exists>t t'. UserProfile.username u = username e
           \<and> sample_country u t = Inr (country e, t')"
    using g by (rule generate_normal_events_set) (rule normal_event_country)
next
  assume a: "sample_country u t = Inr (c, t')"
  from sample_country_Inr(1) [OF a]
  show "c = (if fst (rng_random t) < 0.92 then home_country u
              else alternate_countries ! (shd (stl t) mod 7))"
    by (simp add: alternate_countries_def)
  from a show "c = home_country u \<or> c \<in> set alternate_countries"
    by (rule sample_country_Inr(2))
next
  show "alternate_countries = [''US'', ''CA'', ''GB'', ''DE'', ''FR'', ''AU'', ''JP'']"
    by (simp add: alternate_countries_def)
  show "\<forall>p\<in>set build_user_profiles. home_country p \<in> set alternate_countries"
    by (simp add: build_user_profiles_def alternate_countries_def)
qed

theorem country_home_or_fixed_list_witness:
  "generate_normal_events (sconst 0) build_user_profiles example_start example_end 1
     = Inr ([example_normal], sconst 0)
   \<and> (\<exists>u\<in>set build_user_profiles. \<exists>t t'. UserProfile.username u = username example_normal
         \<and> sample_country u t = Inr (country example_normal, t'))
   \<and> sample_country (build_user_profiles ! 0) (9007199254740991 ## sconst 0) = Inr (''US'', sconst 0)
   \<and> \<not> fst (rng_random (9007199254740991 ## sconst 0)) < 0.92
   \<and> ''US'' = alternate_countries ! (shd (stl (9007199254740991 ## sconst 0)) mod 7)
   \<and> home_country (build_user_profiles ! 0) \<in> set alternate_countries"
proof -
  note t = country_home_or_fixed_list [of "sconst 0" build_user_profiles example_start example_end 1
      "[example_normal]" "sconst 0" "build_user_profiles ! 0" "9007199254740991 ## sconst 0"
      "''US''" "sconst 0"]
  have big: "\<not> fst (rng_random (9007199254740991 ## sconst 0)) < 0.92"
    by (simp add: rng_random_def)
  have mem: "build_user_profiles ! 0 \<in> set build_user_profiles"
    by (simp add: build_user_profiles_def)
  from t normal_event_example
  have 1: "\<exists>u\<in>set build_user_profiles. \<exists>t t'. UserProfile.username u = username example_normal
         \<and> sample_country u t = Inr (country example_normal, t')"
    by simp
  from t sample_country_example big
  have 2: "''US'' = alternate_countries ! (shd (stl (9007199254740991 ## sconst 0)) mod 7)"
    by simp
  from t mem have 3: "home_country (build_user_profiles ! 0) \<in> set alternate_countries"
    by blast
  from normal_event_example 1 sample_country_example big 2 3 show ?thesis by blast
qed

theorem country_fallback_home_counterexample:
  "generate_normal_events ([0, 0, 0, 0, 0, 0, 0, 0, 0, 0, 0] @- (9007199254740991 ## sconst 0))
      build_user_profiles 43200000000 648000000000 1
     = Inr ([\<lparr>timestamp_utc = 28800, username = ''alice'', event_source = ''linux-sshd'',
              auth_type = ''password'', source_ip = IPv4Address 168430081, country = ''US'',
              result = ''SUCCESS'', failure_reason = ''''\<rparr>], sconst 0)
   \<and> sample_country (build_user_profiles ! 0) (9007199254740991 ## sconst 0) = Inr (''US'', sconst 0)
   \<and> \<not> fst (rng_random (9007199254740991 ## sconst 0)) < 0.92
   \<and> UserProfile.username (build_user_profiles ! 0) = ''alice''
   \<and> home_country (build_user_profiles ! 0) = ''US''"
  using home_country_example sample_country_example
  by (simp add: example_start_def example_end_def example_normal_def rng_random_def
      build_user_profiles_def)

subsection \<open>The injected records in the combined output\<close>

lemma inject_anomalies_filter:
  assumes "inject_anomalies s events start end' = Inr (combined, s')"
  obtains an s1 where "build_anomalies start s = Inr (an, s1)"
    and "\<And>Q. mset (filter (\<lambda>e. is_injected_anomaly e = ''true'' \<and> Q e) combined)
              = mset (map (tag ''true'') (filter (\<lambda>e. Q (tag ''true'' e)) an))"
proof -
  from assms obtain an s1 where b: "build_anomalies start s = Inr (an, s1)"
    and m: "mset combined = mset (map (tag ''false'') events) + mset (map (tag ''true'') an)"
    by (rule inject_anomalies_InrE)
  have m': "mset combined = mset (map (tag ''false'') events @ map (tag ''true'') an)"
    using m by simp
  have "mset (filter (\<lambda>e. is_injected_anomaly e = ''true'' \<and> Q e) combined)
              = mset (map (tag ''true'') (filter (\<lambda>e. Q (tag ''true'' e)) an))" for Q
  proof -
    have "mset (filter (\<lambda>e. is_injected_anomaly e = ''true'' \<and> Q e) combined)
        = mset (filter (\<lambda>e. is_injected_anomaly e = ''true'' \<and> Q e)
            (map (tag ''false'') events @ map (tag ''true'') an))"
      unfolding mset_filter m' ..
    also have "filter (\<lambda>e. is_injected_anomaly e = ''true'' \<and> Q e) (map (tag ''false'') events) = []"
      by (simp add: filter_empty_conv tag_def)
    then have "filter (\<lambda>e. is_injected_anomaly e = ''true'' \<and> Q e)
            (map (tag ''false'') events @ map (tag ''true'') an)
        = filter (\<lambda>e. is_injected_anomaly e = ''true'' \<and> Q e) (map (tag ''true'') an)"
      by simp
    also have "\<dots> = map (tag ''true'') (filter (\<lambda>e. is_injected_anomaly (tag ''true'' e) = ''true''
                  \<and> Q (tag ''true'' e)) an)"
      by (simp add: filter_map comp_def)
    also have "\<dots> = map (tag ''true'') (filter (\<lambda>e. Q (tag ''true'' e)) an)"
      by (simp add: tag_def)
    finally show ?thesis .
  qed
  with b show thesis by (rule that)
qed

lemma isoformat_seconds_add_minutes:
  "isoformat_seconds (t + minutes m) = isoformat_seconds t + m * 60"
proof -
  have "t + m * 60000000 = t + (m * 60) * 1000000" by simp
  then have "(t + m * 60000000) div 1000000 = t div 1000000 + m * 60"
    by simp
  then show ?thesis by (simp add: isoformat_seconds_def minutes_def)
qed

subsection \<open>The records of the brute-force scenario\<close>

lemma for_loop_nth:
  assumes "for_loop idx body s = Inr (xs, s1)" and "k < length idx"
  shows "\<exists>t t1. body (idx ! k) t = Inr (xs ! k, t1)"
proof -
  have "list_all2 (\<lambda>i x. \<exists>t t1. body i t = Inr (x, t1)) idx xs"
    using assms(1) by (rule for_loop_all2) blast
  then show ?thesis using assms(2) by (simp add: list_all2_conv_all_nth)
qed

lemma brute_force_records:
  assumes "brute_force start s = Inr (bf, s')"
  obtains h brute_ip t0 t1 where "60 \<le> h" "h \<le> 90"
    and "host_of_block brute_ip (CidrV4 45 33 0 0 16)"
    and "length bf = 13"
    and "for_loop [0..<12] (brute_failure (start + hours h) brute_ip) t0 = Inr (take 12 bf, t1)"
    and "brute_success (start + hours h) brute_ip t1 = Inr (bf ! 12, s')"
    and "\<forall>i<12. \<exists>t t'. brute_failure (start + hours h) brute_ip i t = Inr (bf ! i, t')"
proof -
  from assms obtain h brute_ip failures success t0 t1 where h: "60 \<le> h" "h \<le> 90"
    and ip: "host_of_block brute_ip (CidrV4 45 33 0 0 16)"
    and fl: "for_loop [0..<12] (brute_failure (start + hours h) brute_ip) t0 = Inr (failures, t1)"
    and su: "brute_success (start + hours h) brute_ip t1 = Inr (success, s')"
    and bf: "bf = failures @ [success]"
    by (rule brute_force_InrE)
  from fl have len: "length failures = 12" by (simp add: for_loop_length)
  have l13: "length bf = 13" using bf len by simp
  have tk: "take 12 bf = failures" using bf len by simp
  have last: "bf ! 12 = success" using bf len by (simp add: nth_append)
  have nth: "\<exists>t t'. brute_failure (start + hours h) brute_ip i t = Inr (bf ! i, t')"
    if i: "i < 12" for i
  proof -
    from i have "i < length [0..<12::nat]" by simp
    with fl have "\<exists>t t1. brute_failure (start + hours h) brute_ip ([0..<12] ! i) t
                    = Inr (failures ! i, t1)"
      by (rule for_loop_nth)
    moreover have "[0..<12] ! i = i" using i by simp
    moreover have "bf ! i = failures ! i" using bf len i by (simp add: nth_append)
    ultimately show ?thesis by simp
  qed
  from nth have all: "\<forall>i<12. \<exists>t t'. brute_failure (start + hours h) brute_ip i t = Inr (bf ! i, t')"
    by blast
  show thesis
    using h ip l13 fl [folded tk] su [folded last] all by (rule that)
qed

lemma build_anomalies_brute_filter:
  assumes "build_anomalies start s = Inr (an, s')"
  obtains bf s2 s3 where "brute_force start s2 = Inr (bf, s3)"
    and "filter (\<lambda>e. event_source e = ''linux-sshd'' \<and> auth_type e = ''password'') an = bf"
proof -
  let ?P = "\<lambda>e::AuthEvent. event_source e = ''linux-sshd'' \<and> auth_type e = ''password''"
  from assms obtain ta tb bf off svc s1 s2 s3 s4 where
    ta: "impossible_travel start ''alice'' s = Inr (ta, s1)"
    and tb: "impossible_travel start ''bob'' s1 = Inr (tb, s2)"
    and bf: "brute_force start s2 = Inr (bf, s3)"
    and off: "off_hours start s3 = Inr (off, s4)"
    and svc: "service_account start s4 = Inr (svc, s')"
    and an: "an = ta @ tb @ bf @ [off, svc]"
    by (rule build_anomalies_InrE)
  have fa: "filter ?P ta = []"
    using ta by (rule impossible_travel_InrE) simp
  have fb: "filter ?P tb = []"
    using tb by (rule impossible_travel_InrE) simp
  have fo: "\<not> ?P off"
    using off by (rule off_hours_InrE) simp
  have fs: "\<not> ?P svc"
    using svc by (rule service_account_InrE) simp
  have fbf: "filter ?P bf = bf"
  proof -
    from bf obtain h brute_ip failures success t0 t1 where
      fl: "for_loop [0..<12] (brute_failure (start + hours h) brute_ip) t0 = Inr (failures, t1)"
      and su: "brute_success (start + hours h) brute_ip t1 = Inr (success, s3)"
      and e: "bf = failures @ [success]"
      by (rule brute_force_InrE)
    from brute_failures_reason [OF fl] have "\<forall>e\<in>set failures. ?P e" by blast
    moreover have "?P success" using su by (rule brute_success_InrE) simp
    ultimately have "\<forall>e\<in>set bf. ?P e" using e by simp
    then show ?thesis by (simp add: filter_id_conv)
  qed
  have "filter ?P an = bf" using fa fb fo fs fbf by (simp add: an)
  with bf show thesis by (rule that)
qed

lemma inject_anomalies_brute:
  assumes "inject_anomalies s events start end' = Inr (combined, s')"
  obtains bf s2 s3 where "brute_force start s2 = Inr (bf, s3)"
    and "mset (filter (\<lambda>e. is_injected_anomaly e = ''true'' \<and> event_source e = ''linux-sshd''
                            \<and> auth_type e = ''password'') combined)
         = mset (map (tag ''true'') bf)"
  using assms
proof (rule inject_anomalies_filter)
  fix an s1
  assume b: "build_anomalies start s = Inr (an, s1)"
    and f: "\<And>Q. mset (filter (\<lambda>e. is_injected_anomaly e = ''true'' \<and> Q e) combined)
              = mset (map (tag ''true'') (filter (\<lambda>e. Q (tag ''true'' e)) an))"
  from b obtain bf s2 s3 where bf: "brute_force start s2 = Inr (bf, s3)"
    and fb: "filter (\<lambda>e. event_source e = ''linux-sshd'' \<and> auth_type e = ''password'') an = bf"
    by (rule build_anomalies_brute_filter)
  have "mset (filter (\<lambda>e. is_injected_anomaly e = ''true'' \<and> event_source e = ''linux-sshd''
                            \<and> auth_type e = ''password'') combined)
         = mset (map (tag ''true'') (filter (\<lambda>e. event_source (tag ''true'' e) = ''linux-sshd''
                            \<and> auth_type (tag ''true'' e) = ''password'') an))"
    by (rule f)
  also have "\<dots> = mset (map (tag ''true'') bf)"
    using fb by (simp add: tag_def)
  finally show thesis using bf by (intro that)
qed

subsection \<open>The records of the impossible-travel scenario\<close>

lemma build_anomalies_travel_filter:
  assumes "build_anomalies start s = Inr (an, s')" and "user = ''alice'' \<or> user = ''bob''"
  obtains s1 s2 evs where "impossible_travel start user s1 = Inr (evs, s2)"
    and "filter (\<lambda>e. username e = user \<and> result e = ''SUCCESS'') an = evs"
proof -
  let ?P = "\<lambda>e::AuthEvent. username e = user \<and> result e = ''SUCCESS''"
  from assms(1) obtain ta tb bf off svc s1 s2 s3 s4 where
    ta: "impossible_travel start ''alice'' s = Inr (ta, s1)"
    and tb: "impossible_travel start ''bob'' s1 = Inr (tb, s2)"
    and bf: "brute_force start s2 = Inr (bf, s3)"
    and off: "off_hours start s3 = Inr (off, s4)"
    and svc: "service_account start s4 = Inr (svc, s')"
    and an: "an = ta @ tb @ bf @ [off, svc]"
    by (rule build_anomalies_InrE)
  have fa: "filter ?P ta = (if user = ''alice'' then ta else [])"
    using ta by (rule impossible_travel_InrE) auto
  have fb: "filter ?P tb = (if user = ''bob'' then tb else [])"
    using tb by (rule impossible_travel_InrE) auto
  have fo: "\<not> ?P off"
    using off by (rule off_hours_InrE) (use assms(2) in auto)
  have fs: "\<not> ?P svc"
    using svc by (rule service_account_InrE) (use assms(2) in auto)
  have fbf: "filter ?P bf = []"
  proof -
    from bf obtain h brute_ip failures success t0 t1 where
      fl: "for_loop [0..<12] (brute_failure (start + hours h) brute_ip) t0 = Inr (failures, t1)"
      and su: "brute_success (start + hours h) brute_ip t1 = Inr (success, s3)"
      and e: "bf = failures @ [success]"
      by (rule brute_force_InrE)
    from brute_failures_reason [OF fl] have "\<forall>e\<in>set failures. \<not> ?P e" by auto
    moreover have "\<not> ?P success"
      using su by (rule brute_success_InrE) (use assms(2) in \<open>auto simp: victim_def\<close>)
    ultimately have "\<forall>e\<in>set bf. \<not> ?P e" using e by simp
    then show ?thesis by (simp add: filter_empty_conv)
  qed
  from assms(2) show thesis
  proof
    assume u: "user = ''alice''"
    have f: "filter ?P an = ta" using fa fb fo fs fbf u by (simp add: an)
    have t: "impossible_travel start user s = Inr (ta, s1)" using ta by (simp add: u)
    from t f show thesis by (rule that)
  next
    assume u: "user = ''bob''"
    have f: "filter ?P an = tb" using fa fb fo fs fbf u by (simp add: an)
    have t: "impossible_travel start user s1 = Inr (tb, s2)" using tb by (simp add: u)
    from t f show thesis by (rule that)
  qed
qed

lemma inject_anomalies_travel:
  assumes "inject_anomalies s events start end' = Inr (combined, s')"
    and "user = ''alice'' \<or> user = ''bob''"
  obtains an s0 s1 s2 evs where "build_anomalies start s = Inr (an, s0)"
    and "impossible_travel start user s1 = Inr (evs, s2)"
    and "filter (\<lambda>e. username e = user \<and> result e = ''SUCCESS'') an = evs"
    and "mset (filter (\<lambda>e. is_injected_anomaly e = ''true'' \<and> username e = user
                            \<and> result e = ''SUCCESS'') combined)
         = mset (map (tag ''true'') evs)"
  using assms(1)
proof (rule inject_anomalies_filter)
  fix an s0
  assume b: "build_anomalies start s = Inr (an, s0)"
    and f: "\<And>Q. mset (filter (\<lambda>e. is_injected_anomaly e = ''true'' \<and> Q e) combined)
              = mset (map (tag ''true'') (filter (\<lambda>e. Q (tag ''true'' e)) an))"
  from b assms(2) obtain s1 s2 evs where t: "impossible_travel start user s1 = Inr (evs, s2)"
    and fb: "filter (\<lambda>e. username e = user \<and> result e = ''SUCCESS'') an = evs"
    by (rule build_anomalies_travel_filter)
  have "mset (filter (\<lambda>e. is_injected_anomaly e = ''true'' \<and> username e = user
                            \<and> result e = ''SUCCESS'') combined)
         = mset (map (tag ''true'') (filter (\<lambda>e. username (tag ''true'' e) = user
                            \<and> result (tag ''true'' e) = ''SUCCESS'') an))"
    by (rule f)
  also have "\<dots> = mset (map (tag ''true'') evs)"
    using fb by (simp add: tag_def)
  finally show thesis using b t fb by (intro that)
qed

subsection \<open>A run of the brute-force scenario whose last draw differs\<close>

lemma brute_force_example:
  "brute_force example_start example_draws =
     Inr (butlast example_brute @ [(last example_brute)\<lparr>country := ''FR''\<rparr>], sconst 0)"
  by (simp add: brute_force_def brute_failure_def brute_success_def eval_defs victim_def
      brute_countries_def brute_usernames_def upt_rec example_brute_def example_draws_def)

lemma brute_force_example_countries:
  "(\<forall>i<12. country ((butlast example_brute @ [(last example_brute)\<lparr>country := ''FR''\<rparr>]) ! i)
              = ''DE'')
   \<and> country ((butlast example_brute @ [(last example_brute)\<lparr>country := ''FR''\<rparr>]) ! 12) = ''FR''"
  by (simp add: example_brute_def nth_append del: upt_Suc)



text \<open>
  Claim C6. For each user of \<open>alice\<close> and \<open>bob\<close>, the injected \<open>SUCCESS\<close> records of
  \<open>inject_anomalies\<close> with that username are exactly the two records of the impossible-travel
  scenario, appended in this order: the first at \<open>t1 = start + h\<close> hours with \<open>10 \<le> h \<le> 40\<close>,
  country \<open>US\<close> and a host address of 203.0.113.0/24, the second at \<open>t2 = t1 + m\<close> minutes
  with \<open>5 \<le> m \<le> 35\<close>, country \<open>JP\<close> and a host address of 198.51.100.0/24. The two
  timestamps are \<open>60 m\<close> seconds apart, which is at most 40 minutes.
\<close>

theorem impossible_travel_two_records:
  assumes "inject_anomalies s events start end' = Inr (combined, s')"
    and "user = ''alice'' \<or> user = ''bob''"
  shows "\<exists>an s0 h m ip1 ip2 r1 r2.
           build_anomalies start s = Inr (an, s0)
         \<and> filter (\<lambda>e. username e = user \<and> result e = ''SUCCESS'') an = [r1, r2]
         \<and> mset (filter (\<lambda>e. is_injected_anomaly e = ''true'' \<and> username e = user
                              \<and> result e = ''SUCCESS'') combined)
             = {#tag ''true'' r1, tag ''true'' r2#}
         \<and> 10 \<le> h \<and> h \<le> 40 \<and> 5 \<le> m \<and> m \<le> 35
         \<and> host_of_block ip1 (CidrV4 203 0 113 0 24)
         \<and> host_of_block ip2 (CidrV4 198 51 100 0 24)
         \<and> r1 = \<lparr>timestamp_utc = isoformat_seconds (start + hours h), username = user,
                  event_source = ''vpn-gateway'', auth_type = ''password'', source_ip = ip1,
                  country = ''US'', result = ''SUCCESS'', failure_reason = ''''\<rparr>
         \<and> r2 = \<lparr>timestamp_utc = isoformat_seconds (start + hours h + minutes m), username = user,
                  event_source = ''vpn-gateway'', auth_type = ''password'', source_ip = ip2,
                  country = ''JP'', result = ''SUCCESS'', failure_reason = ''''\<rparr>
         \<and> timestamp_utc r2 - timestamp_utc r1 = m * 60
         \<and> timestamp_utc r2 - timestamp_utc r1 \<le> 40 * 60"
proof -
  from assms obtain an s0 s1 s2 evs where b: "build_anomalies start s = Inr (an, s0)"
    and t: "impossible_travel start user s1 = Inr (evs, s2)"
    and f: "filter (\<lambda>e. username e = user \<and> result e = ''SUCCESS'') an = evs"
    and m: "mset (filter (\<lambda>e. is_injected_anomaly e = ''true'' \<and> username e = user
                            \<and> result e = ''SUCCESS'') combined)
            = mset (map (tag ''true'') evs)"
    by (rule inject_anomalies_travel)
  from t obtain h m ip1 ip2 where hm: "10 \<le> h" "h \<le> 40" "5 \<le> m" "m \<le> 35"
    and ip1: "host_of_block ip1 (CidrV4 203 0 113 0 24)"
    and ip2: "host_of_block ip2 (CidrV4 198 51 100 0 24)"
    and evs: "evs = [\<lparr>timestamp_utc = isoformat_seconds (start + hours h), username = user,
                  event_source = ''vpn-gateway'', auth_type = ''password'', source_ip = ip1,
                  country = ''US'', result = ''SUCCESS'', failure_reason = ''''\<rparr>,
                \<lparr>timestamp_utc = isoformat_seconds (start + hours h + minutes m), username = user,
                  event_source = ''vpn-gateway'', auth_type = ''password'', source_ip = ip2,
                  country = ''JP'', result = ''SUCCESS'', failure_reason = ''''\<rparr>]"
    by (rule impossible_travel_InrE)
  define r1 where "r1 = \<lparr>timestamp_utc = isoformat_seconds (start + hours h), username = user,
                  event_source = ''vpn-gateway'', auth_type = ''password'', source_ip = ip1,
                  country = ''US'', result = ''SUCCESS'', failure_reason = ''''\<rparr>"
  define r2 where "r2 = \<lparr>timestamp_utc = isoformat_seconds (start + hours h + minutes m),
                  username = user,
                  event_source = ''vpn-gateway'', auth_type = ''password'', source_ip = ip2,
                  country = ''JP'', result = ''SUCCESS'', failure_reason = ''''\<rparr>"
  have e: "evs = [r1, r2]" unfolding evs r1_def r2_def ..
  have ms: "mset (filter (\<lambda>e. is_injected_anomaly e = ''true'' \<and> username e = user
                            \<and> result e = ''SUCCESS'') combined)
            = {#tag ''true'' r1, tag ''true'' r2#}"
    unfolding m e by simp
  have d: "timestamp_utc r2 - timestamp_utc r1 = m * 60"
    unfolding r1_def r2_def by (simp add: isoformat_seconds_add_minutes)
  have d': "timestamp_utc r2 - timestamp_utc r1 \<le> 40 * 60"
    unfolding d using hm by simp
  from b f [unfolded e] ms hm ip1 ip2 r1_def r2_def d d' show ?thesis by blast
qed

theorem impossible_travel_two_records_witness:
  "inject_anomalies (sconst 0) [example_normal] example_start example_end =
     Inr (fst (rng_shuffle (tag ''false'' example_normal # map (tag ''true'') example_anomalies) (sconst 0)),
          snd (rng_shuffle (tag ''false'' example_normal # map (tag ''true'') example_anomalies) (sconst 0)))
   \<and> (\<exists>r1 r2.
         filter (\<lambda>e. username e = ''alice'' \<and> result e = ''SUCCESS'') example_anomalies = [r1, r2]
       \<and> mset (filter (\<lambda>e. is_injected_anomaly e = ''true'' \<and> username e = ''alice''
                            \<and> result e = ''SUCCESS'')
                (fst (rng_shuffle (tag ''false'' example_normal # map (tag ''true'') example_anomalies)
                       (sconst 0))))
           = {#tag ''true'' r1, tag ''true'' r2#}
       \<and> country r1 = ''US'' \<and> country r2 = ''JP''
       \<and> timestamp_utc r2 - timestamp_utc r1 \<le> 40 * 60)"
proof -
  have u: "''alice'' = ''alice'' \<or> ''alice'' = ''bob''" by simp
  from impossible_travel_two_records [OF inject_anomalies_example u]
  obtain an s0 h m ip1 ip2 r1 r2 where
    b: "build_anomalies example_start (sconst 0) = Inr (an, s0)"
    and f: "filter (\<lambda>e. username e = ''alice'' \<and> result e = ''SUCCESS'') an = [r1, r2]"
    and ms: "mset (filter (\<lambda>e. is_injected_anomaly e = ''true'' \<and> username e = ''alice''
                            \<and> result e = ''SUCCESS'')
                (fst (rng_shuffle (tag ''false'' example_normal # map (tag ''true'') example_anomalies)
                       (sconst 0))))
           = {#tag ''true'' r1, tag ''true'' r2#}"
    and r1: "r1 = \<lparr>timestamp_utc = isoformat_seconds (example_start + hours h), username = ''alice'',
                  event_source = ''vpn-gateway'', auth_type = ''password'', source_ip = ip1,
                  country = ''US'', result = ''SUCCESS'', failure_reason = ''''\<rparr>"
    and r2: "r2 = \<lparr>timestamp_utc = isoformat_seconds (example_start + hours h + minutes m),
                  username = ''alice'',
                  event_source = ''vpn-gateway'', auth_type = ''password'', source_ip = ip2,
                  country = ''JP'', result = ''SUCCESS'', failure_reason = ''''\<rparr>"
    and d: "timestamp_utc r2 - timestamp_utc r1 \<le> 40 * 60"
    by blast
  from b have an: "an = example_anomalies" by (simp add: build_anomalies_example)
  have c1: "country r1 = ''US''" by (simp add: r1)
  have c2: "country r2 = ''JP''" by (simp add: r2)
  from inject_anomalies_example f [unfolded an] ms c1 c2 d show ?thesis by blast
qed

text \<open>
  Claim C10. The record that concludes the brute-force scenario, the only \<open>SUCCESS\<close> among
  the 13 injected records with event source \<open>linux-sshd\<close> and authentication type
  \<open>password\<close>, has a country of its own draw: the element of \<open>[DE, FR, RU, CN]\<close> at the index
  given by the first draw of the generator state that the loop of the twelve failures leaves
  behind. The countries of the failures play no part in it: with the draws \<open>example_draws\<close>
  all twelve failures have country \<open>DE\<close> and the success has country \<open>FR\<close>.
\<close>

theorem brute_success_country_fresh_draw:
  assumes "inject_anomalies s events start end' = Inr (combined, s')"
  shows "(\<exists>bf h brute_ip t0 t1.
            mset (filter (\<lambda>e. is_injected_anomaly e = ''true'' \<and> event_source e = ''linux-sshd''
                               \<and> auth_type e = ''password'') combined)
              = mset (map (tag ''true'') bf)
          \<and> length bf = 13
          \<and> for_loop [0..<12] (brute_failure (start + hours h) brute_ip) t0 = Inr (take 12 bf, t1)
          \<and> (\<forall>e\<in>set (take 12 bf). result e = ''FAILURE'')
          \<and> result (bf ! 12) = ''SUCCESS''
          \<and> country (bf ! 12) = [''DE'', ''FR'', ''RU'', ''CN''] ! (shd t1 mod 4)
          \<and> country (bf ! 12) \<in> {''DE'', ''FR'', ''RU'', ''CN''})
       \<and> (\<exists>bf t'. brute_force example_start example_draws = Inr (bf, t')
             \<and> (\<forall>i<12. country (bf ! i) = ''DE'') \<and> country (bf ! 12) = ''FR'')"
proof
  from assms obtain bf s2 s3 where b: "brute_force start s2 = Inr (bf, s3)"
    and m: "mset (filter (\<lambda>e. is_injected_anomaly e = ''true'' \<and> event_source e = ''linux-sshd''
                            \<and> auth_type e = ''password'') combined)
            = mset (map (tag ''true'') bf)"
    by (rule inject_anomalies_brute)
  from b obtain h brute_ip t0 t1 where h: "60 \<le> h" "h \<le> 90"
    and ip: "host_of_block brute_ip (CidrV4 45 33 0 0 16)"
    and len: "length bf = 13"
    and fl: "for_loop [0..<12] (brute_failure (start + hours h) brute_ip) t0 = Inr (take 12 bf, t1)"
    and su: "brute_success (start + hours h) brute_ip t1 = Inr (bf ! 12, s3)"
    and nth: "\<forall>i<12. \<exists>t t'. brute_failure (start + hours h) brute_ip i t = Inr (bf ! i, t')"
    by (rule brute_force_records)
  from brute_failures_reason [OF fl] have fr: "\<forall>e\<in>set (take 12 bf). result e = ''FAILURE''"
    by blast
  have last: "result (bf ! 12) = ''SUCCESS''
      \<and> country (bf ! 12) = [''DE'', ''FR'', ''RU'', ''CN''] ! (shd t1 mod 4)
      \<and> country (bf ! 12) \<in> {''DE'', ''FR'', ''RU'', ''CN''}"
    using su by (rule brute_success_InrE) (simp add: brute_countries_def)
  from m len fl fr last
  show "\<exists>bf h brute_ip t0 t1.
            mset (filter (\<lambda>e. is_injected_anomaly e = ''true'' \<and> event_source e = ''linux-sshd''
                               \<and> auth_type e = ''password'') combined)
              = mset (map (tag ''true'') bf)
          \<and> length bf = 13
          \<and> for_loop [0..<12] (brute_failure (start + hours h) brute_ip) t0 = Inr (take 12 bf, t1)
          \<and> (\<forall>e\<in>set (take 12 bf). result e = ''FAILURE'')
          \<and> result (bf ! 12) = ''SUCCESS''
          \<and> country (bf ! 12) = [''DE'', ''FR'', ''RU'', ''CN''] ! (shd t1 mod 4)
          \<and> country (bf ! 12) \<in> {''DE'', ''FR'', ''RU'', ''CN''}"
    by blast
next
  from brute_force_example brute_force_example_countries
  show "\<exists>bf t'. brute_force example_start example_draws = Inr (bf, t')
             \<and> (\<forall>i<12. country (bf ! i) = ''DE'') \<and> country (bf ! 12) = ''FR''"
    by blast
qed

theorem brute_success_country_fresh_draw_witness:
  "inject_anomalies (sconst 0) [example_normal] example_start example_end =
     Inr (fst (rng_shuffle (tag ''false'' example_normal # map (tag ''true'') example_anomalies) (sconst 0)),
          snd (rng_shuffle (tag ''false'' example_normal # map (tag ''true'') example_anomalies) (sconst 0)))
   \<and> (\<exists>bf t1.
         mset (filter (\<lambda>e. is_injected_anomaly e = ''true'' \<and> event_source e = ''linux-sshd''
                            \<and> auth_type e = ''password'')
                (fst (rng_shuffle (tag ''false'' example_normal # map (tag ''true'') example_anomalies)
                       (sconst 0))))
           = mset (map (tag ''true'') bf)
       \<and> length bf = 13
       \<and> result (bf ! 12) = ''SUCCESS''
       \<and> country (bf ! 12) = [''DE'', ''FR'', ''RU'', ''CN''] ! (shd t1 mod 4))
   \<and> (\<exists>bf t'. brute_force example_start example_draws = Inr (bf, t')
         \<and> country (bf ! 0) = ''DE'' \<and> country (bf ! 12) = ''FR'')"
proof -
  note c = brute_success_country_fresh_draw [OF inject_anomalies_example]
  from c have a: "\<exists>bf t1.
         mset (filter (\<lambda>e. is_injected_anomaly e = ''true'' \<and> event_source e = ''linux-sshd''
                            \<and> auth_type e = ''password'')
                (fst (rng_shuffle (tag ''false'' example_normal # map (tag ''true'') example_anomalies)
                       (sconst 0))))
           = mset (map (tag ''true'') bf)
       \<and> length bf = 13
       \<and> result (bf ! 12) = ''SUCCESS''
       \<and> country (bf ! 12) = [''DE'', ''FR'', ''RU'', ''CN''] ! (shd t1 mod 4)"
    by blast
  from c obtain bf t' where e: "brute_force example_start example_draws = Inr (bf, t')"
    and d: "\<forall>i<12. country (bf ! i) = ''DE''" and f: "country (bf ! 12) = ''FR''"
    by blast
  from d have "country (bf ! 0) = ''DE''" by simp
  with e f have b: "\<exists>bf t'. brute_force example_start example_draws = Inr (bf, t')
         \<and> country (bf ! 0) = ''DE'' \<and> country (bf ! 12) = ''FR''"
    by blast
  from inject_anomalies_example a b show ?thesis by blast
qed

end
